theory Spec2Isabelle
  imports Main "HOL-Library.Word"
begin

section \<open>The modular simulator algorithm (simulatoralgorithm.cpp)\<close>

text \<open>
  The scheduler owns a task queue, a cursor into it, the step counter and the
  step facts that signallers report to it.  Everything it calls but does not
  define (signallers, elements, the stop and reset handlers, helpers, timing
  and printing) is a collaborator: its behaviour is a parameter of the model,
  acting on a world \<open>'w\<close> that the scheduler never inspects.  A call of a
  collaborator is taken to return; an exception from it would pass through the
  scheduler, which has no handler, and is not part of the model.

  Conventions of the embedding:
  \<^item> A member \<^verbatim>\<open>name_\<close> of the C++ classes is the record field \<open>name\<close>
    (an identifier cannot end in an underscore here).
  \<^item> \<^verbatim>\<open>Time\<close> is a floating-point number.  It is kept abstract (\<open>'tm\<close>):
    \<open>stepTime s\<close> stands for the value of the expression
    \<^verbatim>\<open>startTime + s * timeStep\<close>, whatever the rounding.
  \<^item> An object is known by its address (\<open>addr\<close>).  A pointer the code tests,
    moves from or leaves null is an \<open>addr option\<close>; the entries of the signaller
    list and of the call lists, which the code takes from live objects, are
    addresses.
  \<^item> The task queue is a \<^verbatim>\<open>std::vector\<close> and the cursor an iterator into
    it: an offset from the start of the storage.  \<^verbatim>\<open>clear()\<close> leaves the
    offset as it is; dereferencing an offset outside the queue is a fault.
\<close>

text \<open>
  Modelled from the spec: the type \<^verbatim>\<open>Step\<close> is declared in a header that is not among
  the sources; the spec calls a step a signed integer index, so it is an integer here,
  and the step counter itself never overflows.  The local
  \<^verbatim>\<open>const int step = step_;\<close> of \<^verbatim>\<open>populateTaskQueue\<close> is a 32-bit \<^verbatim>\<open>int\<close>:
  \<open>narrowToInt\<close> is the conversion to it.
\<close>

type_synonym Step = int
type_synonym addr = nat

definition narrowToInt :: "Step \<Rightarrow> int" where
  "narrowToInt s = sint (word_of_int s :: 32 word)"

text \<open>
  The entries of the task queue.  \<open>PreStepTask step time isNSStep\<close> is the
  closure \<^verbatim>\<open>[this, step, time, isNSStep]() { preStep(step, time, isNSStep); }\<close>,
  \<open>PostStepTask step time\<close> the closure calling \<^verbatim>\<open>postStep(step, time)\<close>,
  \<open>TeardownTask\<close> the closure calling \<^verbatim>\<open>teardown()\<close>, and \<open>ElementTask f\<close>
  a function \<open>f\<close> that an element handed to \<^verbatim>\<open>registerRunFunction\<close>.
\<close>

datatype ('tm, 'a) SimulatorRunFunction =
    PreStepTask int 'tm bool
  | ElementTask 'a
  | PostStepTask int 'tm
  | TeardownTask

text \<open>
  The two callbacks \<^verbatim>\<open>SignalHelper\<close> registers with the signallers:
  \<^verbatim>\<open>registerLastStepCallback\<close> and \<^verbatim>\<open>registerNSCallback\<close>.
\<close>

datatype SignallerCallback = LastStepCallback Step | NSCallback Step

text \<open>Calls into collaborators that return nothing to the scheduler.\<close>

datatype 'tm ExternalCall =
    LogNoconfoutDeprecated
  | PrintRunHeader
  | WalltimeAccountingStartTime
  | WallcycleStartRun
  | PrintStart
  | SignallerSetup addr
  | DomDecHelperSetup
  | ElementSetup addr
  | StatePropagatorDataSetup addr
  | PmeLoadBalanceHelperSetup
  | CheckpointHelperRun Step 'tm
  | PmeLoadBalanceHelperRun Step 'tm
  | DomDecHelperRun Step 'tm
  | ResetHandlerSetSignal
  | StopHandlerSetSignal Step bool
  | WallcycleStartStep
  | ElementTeardown addr
  | EnergyDataTeardown addr
  | PmeLoadBalanceHelperTeardown
  | WalltimeAccountingEndTime
  | PmeSendFinish
  | WalltimeAccountingSetNstepsDone Step
  | ThermostatRegistration addr addr
  | BarostatRegistration addr addr
  | RegisterWithInfrastructureAndSignallers addr

text \<open>
  The collaborators' behaviour.  \<open>signal sg s t\<close> is \<^verbatim>\<open>signal(s, t)\<close> of the signaller at
  \<open>sg\<close>: it returns the callbacks of \<^verbatim>\<open>SignalHelper\<close> the signaller invokes, in order.
  \<open>scheduleTask e s t\<close> is \<^verbatim>\<open>scheduleTask(s, t, registerRunFunction)\<close> of the element at
  \<open>e\<close>: it returns the functions the element registers, in order.
  \<open>stoppingAfterCurrentStep\<close> is the stop handler's query; it reads the world and leaves
  it as it is.
\<close>

record ('w, 'tm, 'a) Collaborators =
  externalCall :: "'tm ExternalCall \<Rightarrow> 'w \<Rightarrow> 'w"
  signal :: "addr \<Rightarrow> Step \<Rightarrow> 'tm \<Rightarrow> 'w \<Rightarrow> SignallerCallback list \<times> 'w"
  scheduleTask :: "addr \<Rightarrow> Step \<Rightarrow> 'tm \<Rightarrow> 'w \<Rightarrow> 'a list \<times> 'w"
  stoppingAfterCurrentStep :: "bool \<Rightarrow> 'w \<Rightarrow> bool"

text \<open>
  What the scheduler reads of \<^verbatim>\<open>inputrec\<close>, \<^verbatim>\<open>mdrunOptions\<close> and \<^verbatim>\<open>cr\<close>.
\<close>

record 'tm SimulationInput =
  init_step :: Step
  stepTime :: "Step \<Rightarrow> 'tm"
  writeConfout :: bool
  isMaster :: bool
  hasPmeDuty :: bool
  doPmeLoadBalancing :: bool
  domainDecomp :: bool

record ('tm, 'a) ModularSimulatorAlgorithm =
  taskQueue :: "('tm, 'a) SimulatorRunFunction list"
  taskIterator :: nat
  step :: Step
  runFinished :: bool
  lastStep :: Step
  nextNSStep :: Step
  stophandlerIsNSStep :: bool
  stophandlerCurrentStep :: Step
  signallerList :: "addr list"
  elementsOwnershipList :: "addr option list"
  elementCallList :: "addr list"
  statePropagatorData :: "addr option"
  energyData :: "addr option"
  freeEnergyPerturbationData :: "addr option"
  stopHandler :: "addr option"
  resetHandler :: "addr option"
  topologyHolder :: "addr option"
  checkpointHelper :: "addr option"
  pmeLoadBalanceHelper :: "addr option"
  domDecHelper :: "addr option"

text \<open>
  Two ways a call can end without returning normally.  A \<open>Fault\<close> is undefined
  behaviour: the code steps outside its objects, and there is no state afterwards.
  A \<open>SetupError\<close> is the exception the builder throws: the caller can catch it,
  and the state it leaves is part of the result.
\<close>

datatype Fault = InvalidIteratorDereference | NullPointerDereference

datatype SetupError = SimulationAlgorithmSetupError string

subsection \<open>Signallers and elements\<close>

fun applyCallback ::
  "SignallerCallback \<Rightarrow> ('tm, 'a) ModularSimulatorAlgorithm \<Rightarrow> ('tm, 'a) ModularSimulatorAlgorithm"
where
  "applyCallback (LastStepCallback s) a = a\<lparr>lastStep := s\<rparr>"
| "applyCallback (NSCallback s) a = a\<lparr>nextNSStep := s\<rparr>"

text \<open>
  \<^verbatim>\<open>for (auto& signaller : signallerList_) signaller->signal(step, time);\<close>
\<close>

fun signalAll ::
  "('w, 'tm, 'a) Collaborators \<Rightarrow> addr list \<Rightarrow> Step \<Rightarrow> 'tm \<Rightarrow>
   ('tm, 'a) ModularSimulatorAlgorithm \<times> 'w \<Rightarrow> ('tm, 'a) ModularSimulatorAlgorithm \<times> 'w"
where
  "signalAll c [] s t (a, w) = (a, w)"
| "signalAll c (sg # sgs) s t (a, w) =
     (case signal c sg s t w of
        (cbs, w') \<Rightarrow> signalAll c sgs s t (fold applyCallback cbs a, w'))"

text \<open>
  \<^verbatim>\<open>for (auto& element : elementCallList_) element->scheduleTask(step_, time, registerRunFunction);\<close>
  where \<^verbatim>\<open>registerRunFunction\<close> appends to the task queue.
\<close>

fun scheduleElements ::
  "('w, 'tm, 'a) Collaborators \<Rightarrow> addr list \<Rightarrow> Step \<Rightarrow> 'tm \<Rightarrow>
   ('tm, 'a) SimulatorRunFunction list \<times> 'w \<Rightarrow> ('tm, 'a) SimulatorRunFunction list \<times> 'w"
where
  "scheduleElements c [] s t (q, w) = (q, w)"
| "scheduleElements c (e # es) s t (q, w) =
     (case scheduleTask c e s t w of
        (fs, w') \<Rightarrow> scheduleElements c es s t (q @ map ElementTask fs, w'))"

subsection \<open>Batch generation\<close>

text \<open>One pass through the body of the \<^verbatim>\<open>do { ... } while\<close> of \<^verbatim>\<open>populateTaskQueue\<close>.\<close>

definition populateStep ::
  "('w, 'tm, 'a) Collaborators \<Rightarrow> 'tm SimulationInput \<Rightarrow>
   ('tm, 'a) ModularSimulatorAlgorithm \<times> 'w \<times> 'tm \<Rightarrow> ('tm, 'a) ModularSimulatorAlgorithm \<times> 'w \<times> 'tm"
where
  "populateStep c inp x =
     (case x of (a, w, time) \<Rightarrow>
        let stepInt = narrowToInt (step a);
            isNSStep = (stepInt = nextNSStep a);
            q1 = taskQueue a @ [PreStepTask stepInt time isNSStep]
        in case scheduleElements c (elementCallList a) (step a) time (q1, w) of
          (q2, w2) \<Rightarrow>
            let a1 = a\<lparr>taskQueue := q2 @ [PostStepTask stepInt time], step := step a + 1\<rparr>;
                time' = stepTime inp (step a1)
            in case signalAll c (signallerList a1) (step a1) time' (a1, w2) of
              (a2, w3) \<Rightarrow> (a2, w3, time'))"

definition continueBatch :: "('tm, 'a) ModularSimulatorAlgorithm \<Rightarrow> bool" where
  "continueBatch a = (step a \<noteq> nextNSStep a \<and> step a \<le> lastStep a)"

partial_function (option) populateLoop ::
  "('w, 'tm, 'a) Collaborators \<Rightarrow> 'tm SimulationInput \<Rightarrow>
   ('tm, 'a) ModularSimulatorAlgorithm \<times> 'w \<times> 'tm \<Rightarrow>
   (('tm, 'a) ModularSimulatorAlgorithm \<times> 'w \<times> 'tm) option"
where
  "populateLoop c inp x =
     (let x' = populateStep c inp x
      in if continueBatch (fst x') then populateLoop c inp x' else Some x')"

declare populateLoop.simps [code]

definition runIfPresent ::
  "('w, 'tm, 'a) Collaborators \<Rightarrow> addr option \<Rightarrow> 'tm ExternalCall \<Rightarrow> 'w \<Rightarrow> 'w" where
  "runIfPresent c p call w = (case p of None \<Rightarrow> w | Some _ \<Rightarrow> externalCall c call w)"

text \<open>
  \<^verbatim>\<open>populateTaskQueue\<close> in three parts: the statements before the loop (the initial
  call to the signallers and the helpers' \<^verbatim>\<open>run\<close>), the loop, and the statements after
  it (\<^verbatim>\<open>runFinished_\<close> and the teardown task).
\<close>

definition beforeLoop ::
  "('w, 'tm, 'a) Collaborators \<Rightarrow> 'tm SimulationInput \<Rightarrow>
   ('tm, 'a) ModularSimulatorAlgorithm \<times> 'w \<Rightarrow> ('tm, 'a) ModularSimulatorAlgorithm \<times> 'w \<times> 'tm"
where
  "beforeLoop c inp x =
     (case x of (a, w) \<Rightarrow>
        let time = stepTime inp (step a)
        in case signalAll c (signallerList a) (step a) time (a, w) of
          (a1, w1) \<Rightarrow>
            let w2 = runIfPresent c (checkpointHelper a1) (CheckpointHelperRun (step a1) time) w1;
                w3 = runIfPresent c (pmeLoadBalanceHelper a1) (PmeLoadBalanceHelperRun (step a1) time) w2;
                w4 = runIfPresent c (domDecHelper a1) (DomDecHelperRun (step a1) time) w3
            in (a1, w4, time))"

definition afterLoop ::
  "('tm, 'a) ModularSimulatorAlgorithm \<times> 'w \<times> 'tm \<Rightarrow> ('tm, 'a) ModularSimulatorAlgorithm \<times> 'w"
where
  "afterLoop y =
     (case y of (a2, w5, time') \<Rightarrow>
        let a3 = a2\<lparr>runFinished := (lastStep a2 < step a2)\<rparr>
        in (if runFinished a3 then a3\<lparr>taskQueue := taskQueue a3 @ [TeardownTask]\<rparr> else a3, w5))"

definition populateTaskQueue ::
  "('w, 'tm, 'a) Collaborators \<Rightarrow> 'tm SimulationInput \<Rightarrow>
   ('tm, 'a) ModularSimulatorAlgorithm \<times> 'w \<Rightarrow> (('tm, 'a) ModularSimulatorAlgorithm \<times> 'w) option"
where
  "populateTaskQueue c inp x =
     (case populateLoop c inp (beforeLoop c inp x) of
        None \<Rightarrow> None
      | Some y \<Rightarrow> Some (afterLoop y))"

definition updateTaskQueue ::
  "('w, 'tm, 'a) Collaborators \<Rightarrow> 'tm SimulationInput \<Rightarrow>
   ('tm, 'a) ModularSimulatorAlgorithm \<times> 'w \<Rightarrow> (('tm, 'a) ModularSimulatorAlgorithm \<times> 'w) option"
where
  "updateTaskQueue c inp x = (case x of (a, w) \<Rightarrow> populateTaskQueue c inp (a\<lparr>taskQueue := []\<rparr>, w))"

subsection \<open>The pull interface\<close>

text \<open>
  \<^verbatim>\<open>return &*taskIterator_;\<close>  The result of \<open>getNextTask\<close> is \<open>None\<close> when batch
  generation does not return, \<open>Some (Inl fault)\<close> when the cursor is dereferenced
  outside the queue, and otherwise \<open>Some (Inr (r, a, w))\<close> with \<open>r = None\<close> for
  \<^verbatim>\<open>nullptr\<close> and \<open>r = Some task\<close> for a pointer to a task.
\<close>

definition dereference ::
  "('tm, 'a) ModularSimulatorAlgorithm \<times> 'w \<Rightarrow>
   Fault + (('tm, 'a) SimulatorRunFunction option \<times> ('tm, 'a) ModularSimulatorAlgorithm \<times> 'w)"
where
  "dereference x =
     (case x of (a, w) \<Rightarrow>
        if taskIterator a < length (taskQueue a)
        then Inr (Some (taskQueue a ! taskIterator a), a, w)
        else Inl InvalidIteratorDereference)"

text \<open>\<^verbatim>\<open>if (!taskQueue_.empty()) { taskIterator_++; }\<close>\<close>

definition advanceCursor :: "('tm, 'a) ModularSimulatorAlgorithm \<Rightarrow> ('tm, 'a) ModularSimulatorAlgorithm" where
  "advanceCursor a = (if taskQueue a \<noteq> [] then a\<lparr>taskIterator := taskIterator a + 1\<rparr> else a)"

text \<open>\<^verbatim>\<open>taskIterator_ == taskQueue_.end()\<close>\<close>

definition cursorAtEnd :: "('tm, 'a) ModularSimulatorAlgorithm \<Rightarrow> bool" where
  "cursorAtEnd a = (taskIterator a = length (taskQueue a))"

definition getNextTask ::
  "('w, 'tm, 'a) Collaborators \<Rightarrow> 'tm SimulationInput \<Rightarrow>
   ('tm, 'a) ModularSimulatorAlgorithm \<times> 'w \<Rightarrow>
   (Fault + (('tm, 'a) SimulatorRunFunction option \<times> ('tm, 'a) ModularSimulatorAlgorithm \<times> 'w)) option"
where
  "getNextTask c inp x =
     (case x of (a, w) \<Rightarrow>
        let a1 = advanceCursor a
        in if cursorAtEnd a1
           then if runFinished a1
                then Some (Inr (None, a1, w))
                else (case updateTaskQueue c inp (a1, w) of
                        None \<Rightarrow> None
                      | Some (a2, w2) \<Rightarrow> Some (dereference (a2\<lparr>taskIterator := 0\<rparr>, w2)))
           else Some (dereference (a1, w)))"

subsection \<open>The scheduler's own tasks\<close>

definition preStep ::
  "('w, 'tm, 'a) Collaborators \<Rightarrow> Step \<Rightarrow> 'tm \<Rightarrow> bool \<Rightarrow>
   ('tm, 'a) ModularSimulatorAlgorithm \<times> 'w \<Rightarrow> ('tm, 'a) ModularSimulatorAlgorithm \<times> 'w"
where
  "preStep c stp time isNeighborSearchingStep x =
     (case x of (a, w) \<Rightarrow>
        if stoppingAfterCurrentStep c isNeighborSearchingStep w \<and> stp \<noteq> lastStep a
        then (a\<lparr>taskQueue := [], step := stp\<rparr>, w)
        else
          let w1 = externalCall c ResetHandlerSetSignal w;
              a1 = a\<lparr>stophandlerIsNSStep := isNeighborSearchingStep,
                     stophandlerCurrentStep := stp\<rparr>;
              w2 = externalCall c (StopHandlerSetSignal (stophandlerCurrentStep a1)
                                     (stophandlerIsNSStep a1)) w1;
              w3 = externalCall c WallcycleStartStep w2
          in (a1, w3))"

definition simulatorTeardown ::
  "('w, 'tm, 'a) Collaborators \<Rightarrow> 'tm SimulationInput \<Rightarrow>
   ('tm, 'a) ModularSimulatorAlgorithm \<Rightarrow> 'w \<Rightarrow> 'w"
where
  "simulatorTeardown c inp a w =
     (let w1 = externalCall c WalltimeAccountingEndTime w;
          w2 = (if \<not> hasPmeDuty inp then externalCall c PmeSendFinish w1 else w1)
      in externalCall c (WalltimeAccountingSetNstepsDone (step a - init_step inp)) w2)"

text \<open>
  \<^verbatim>\<open>for (auto& element : list) element->call();\<close> over a list of owning pointers:
  a null entry cannot be called.
\<close>

fun callEach ::
  "('w, 'tm, 'a) Collaborators \<Rightarrow> (addr \<Rightarrow> 'tm ExternalCall) \<Rightarrow> addr option list \<Rightarrow> 'w \<Rightarrow> Fault + 'w"
where
  "callEach c mk [] w = Inr w"
| "callEach c mk (None # ps) w = Inl NullPointerDereference"
| "callEach c mk (Some p # ps) w = callEach c mk ps (externalCall c (mk p) w)"

definition teardown ::
  "('w, 'tm, 'a) Collaborators \<Rightarrow> 'tm SimulationInput \<Rightarrow>
   ('tm, 'a) ModularSimulatorAlgorithm \<Rightarrow> 'w \<Rightarrow> Fault + 'w"
where
  "teardown c inp a w =
     (case callEach c ElementTeardown (elementsOwnershipList a) w of
        Inl fault \<Rightarrow> Inl fault
      | Inr w1 \<Rightarrow>
          (case energyData a of
             None \<Rightarrow> Inl NullPointerDereference
           | Some ed \<Rightarrow>
               let w2 = externalCall c (EnergyDataTeardown ed) w1;
                   w3 = runIfPresent c (pmeLoadBalanceHelper a) PmeLoadBalanceHelperTeardown w2
               in Inr (simulatorTeardown c inp a w3)))"

subsection \<open>Setup\<close>

definition simulatorSetup ::
  "('w, 'tm, 'a) Collaborators \<Rightarrow> 'tm SimulationInput \<Rightarrow>
   ('tm, 'a) ModularSimulatorAlgorithm \<times> 'w \<Rightarrow> ('tm, 'a) ModularSimulatorAlgorithm \<times> 'w"
where
  "simulatorSetup c inp x =
     (case x of (a, w) \<Rightarrow>
        let w1 = (if \<not> writeConfout inp then externalCall c LogNoconfoutDeprecated w else w);
            w2 = (if isMaster inp then externalCall c PrintRunHeader w1 else w1);
            w3 = externalCall c WalltimeAccountingStartTime w2;
            w4 = externalCall c WallcycleStartRun w3;
            w5 = externalCall c PrintStart w4
        in (a\<lparr>step := init_step inp\<rparr>, w5))"

text \<open>\<^verbatim>\<open>ModularSimulatorAlgorithm::setup()\<close> (the name \<open>setup\<close> is reserved here).\<close>

definition algorithmSetup ::
  "('w, 'tm, 'a) Collaborators \<Rightarrow> 'tm SimulationInput \<Rightarrow>
   ('tm, 'a) ModularSimulatorAlgorithm \<times> 'w \<Rightarrow> Fault + ('tm, 'a) ModularSimulatorAlgorithm \<times> 'w"
where
  "algorithmSetup c inp x =
     (case simulatorSetup c inp x of (a, w) \<Rightarrow>
        let w1 = fold (\<lambda>signaller. externalCall c (SignallerSetup signaller)) (signallerList a) w;
            w2 = runIfPresent c (domDecHelper a) DomDecHelperSetup w1
        in case callEach c ElementSetup (elementsOwnershipList a) w2 of
             Inl fault \<Rightarrow> Inl fault
           | Inr w3 \<Rightarrow>
               (case statePropagatorData a of
                  None \<Rightarrow> Inl NullPointerDereference
                | Some spd \<Rightarrow>
                    let w4 = externalCall c (StatePropagatorDataSetup spd) w3
                    in Inr (a, runIfPresent c (pmeLoadBalanceHelper a) PmeLoadBalanceHelperSetup w4)))"

section \<open>The builder\<close>

text \<open>
  The builder's members that \<^verbatim>\<open>build()\<close> reads.  A registration function and a
  connection are known by their addresses; applying a registration function to a
  connection is a call into the controller that submitted it.
\<close>

record ModularSimulatorAlgorithmBuilder =
  algorithmHasBeenBuilt :: bool
  thermostatRegistrationFunctions :: "addr list"
  propagatorThermostatConnections :: "addr list"
  barostatRegistrationFunctions :: "addr list"
  propagatorBarostatConnections :: "addr list"
  elements :: "addr option list"
  callList :: "addr list"
  setupAndTeardownList :: "addr list"
  builderStatePropagatorData :: "addr option"
  builderEnergyData :: "addr option"
  builderFreeEnergyPerturbationData :: "addr option"
  checkBondedInteractionsCallback :: "addr option"

text \<open>
  The objects \<^verbatim>\<open>build()\<close> creates through constructors and sub-builders that are not
  part of this file, each by its address, and the default member initialisers of the
  class declaration (simulatoralgorithm.h).
\<close>

record BuiltObjects =
  builtSignalHelper :: addr
  builtStopHandler :: addr
  builtResetHandler :: addr
  builtTopologyHolder :: addr
  builtPmeLoadBalanceHelper :: addr
  builtDomDecHelper :: addr
  builtTrajectoryElement :: addr
  builtFreeEnergyPerturbationElement :: addr
  builtCheckpointHelper :: addr
  builtEnergySignaller :: addr
  builtTrajectorySignaller :: addr
  builtLoggingSignaller :: addr
  builtLastStepSignaller :: addr
  builtNeighborSearchSignaller :: addr
  defaultLastStep :: Step
  defaultNextNSStep :: Step
  defaultStophandlerIsNSStep :: bool
  defaultStophandlerCurrentStep :: Step

text \<open>The constructor \<^verbatim>\<open>ModularSimulatorAlgorithm::ModularSimulatorAlgorithm\<close>.\<close>

definition newAlgorithm :: "BuiltObjects \<Rightarrow> ('tm, 'a) ModularSimulatorAlgorithm" where
  "newAlgorithm bo =
     \<lparr> taskQueue = [], taskIterator = 0, step = - 1, runFinished = False,
       lastStep = defaultLastStep bo, nextNSStep = defaultNextNSStep bo,
       stophandlerIsNSStep = defaultStophandlerIsNSStep bo,
       stophandlerCurrentStep = defaultStophandlerCurrentStep bo,
       signallerList = [], elementsOwnershipList = [], elementCallList = [],
       statePropagatorData = None, energyData = None, freeEnergyPerturbationData = None,
       stopHandler = None, resetHandler = None, topologyHolder = None,
       checkpointHelper = None, pmeLoadBalanceHelper = None, domDecHelper = None \<rparr>"

text \<open>
  \<^verbatim>\<open>for (f : registrationFunctions) for (connection : connections) f(connection);\<close>
\<close>

definition connectAll ::
  "('w, 'tm, 'a) Collaborators \<Rightarrow> (addr \<Rightarrow> addr \<Rightarrow> 'tm ExternalCall) \<Rightarrow> addr list \<Rightarrow> addr list \<Rightarrow> 'w \<Rightarrow> 'w"
where
  "connectAll c mk registrations connections w =
     fold (\<lambda>registration. fold (\<lambda>connection. externalCall c (mk registration connection)) connections)
          registrations w"

text \<open>The lambda \<^verbatim>\<open>addSignaller\<close> of \<^verbatim>\<open>build()\<close>.\<close>

definition addSignaller ::
  "('w, 'tm, 'a) Collaborators \<Rightarrow> addr \<Rightarrow>
   ('tm, 'a) ModularSimulatorAlgorithm \<times> 'w \<Rightarrow> ('tm, 'a) ModularSimulatorAlgorithm \<times> 'w"
where
  "addSignaller c signaller x =
     (case x of (a, w) \<Rightarrow>
        (a\<lparr>signallerList := signaller # signallerList a\<rparr>,
         externalCall c (RegisterWithInfrastructureAndSignallers signaller) w))"

text \<open>
  \<^verbatim>\<open>build()\<close> after the registration functions have been applied, in four parts.
  First: the algorithm object is constructed, the builder's data objects are moved into
  it, and the stop handler, the reset handler, the topology holder and (if used) the PME
  load balancing helper are built.
\<close>

definition constructAlgorithm ::
  "BuiltObjects \<Rightarrow> ('w, 'tm, 'a) Collaborators \<Rightarrow> 'tm SimulationInput \<Rightarrow>
   ModularSimulatorAlgorithmBuilder \<times> 'w \<Rightarrow>
   ('tm, 'a) ModularSimulatorAlgorithm \<times> ModularSimulatorAlgorithmBuilder \<times> 'w"
where
  "constructAlgorithm bo c inp x =
     (case x of (b1, w2) \<Rightarrow>
        let register = (\<lambda>p. externalCall c (RegisterWithInfrastructureAndSignallers p));
            a0 = newAlgorithm bo;
            w3 = register (builtSignalHelper bo) w2;
            a1 = a0\<lparr>statePropagatorData := builderStatePropagatorData b1,
                   energyData := builderEnergyData b1,
                   freeEnergyPerturbationData := builderFreeEnergyPerturbationData b1\<rparr>;
            b2 = b1\<lparr>builderStatePropagatorData := None, builderEnergyData := None,
                   builderFreeEnergyPerturbationData := None\<rparr>;
            a2 = a1\<lparr>stopHandler := Some (builtStopHandler bo),
                   resetHandler := Some (builtResetHandler bo),
                   topologyHolder := Some (builtTopologyHolder bo)\<rparr>;
            a3 = (if doPmeLoadBalancing inp
                  then a2\<lparr>pmeLoadBalanceHelper := Some (builtPmeLoadBalanceHelper bo)\<rparr> else a2);
            w4 = (if doPmeLoadBalancing inp then register (builtPmeLoadBalanceHelper bo) w3 else w3)
        in (a3, b2, w4))"

text \<open>
  Second: the domain decomposition helper (if used), the trajectory element, the free
  energy element (if there is free-energy data) and the checkpoint helper are built.
  \<^verbatim>\<open>moveCheckBondedInteractionsCallback()\<close> has been checked before.
\<close>

definition buildHelpers ::
  "BuiltObjects \<Rightarrow> ('w, 'tm, 'a) Collaborators \<Rightarrow> 'tm SimulationInput \<Rightarrow>
   ('tm, 'a) ModularSimulatorAlgorithm \<times> 'w \<Rightarrow> ('tm, 'a) ModularSimulatorAlgorithm \<times> 'w"
where
  "buildHelpers bo c inp x =
     (case x of (a3, w4) \<Rightarrow>
        let register = (\<lambda>p. externalCall c (RegisterWithInfrastructureAndSignallers p));
            a4 = (if domainDecomp inp then a3\<lparr>domDecHelper := Some (builtDomDecHelper bo)\<rparr> else a3);
            w5 = (if domainDecomp inp then register (builtDomDecHelper bo) w4 else w4);
            w6 = register (builtTrajectoryElement bo) w5;
            w7 = (if freeEnergyPerturbationData a4 \<noteq> None
                  then register (builtFreeEnergyPerturbationElement bo) w6 else w6);
            a5 = a4\<lparr>checkpointHelper := Some (builtCheckpointHelper bo)\<rparr>;
            w8 = register (builtCheckpointHelper bo) w7
        in (a5, w8))"

text \<open>Third: the five signallers are built and added.\<close>

definition buildSignallers ::
  "BuiltObjects \<Rightarrow> ('w, 'tm, 'a) Collaborators \<Rightarrow>
   ('tm, 'a) ModularSimulatorAlgorithm \<times> 'w \<Rightarrow> ('tm, 'a) ModularSimulatorAlgorithm \<times> 'w"
where
  "buildSignallers bo c x =
     fold (addSignaller c)
       [builtEnergySignaller bo, builtTrajectorySignaller bo, builtLoggingSignaller bo,
        builtLastStepSignaller bo, builtNeighborSearchSignaller bo] x"

text \<open>
  Fourth: the element lists are created.  The local \<^verbatim>\<open>freeEnergyPerturbationElement\<close>
  is non-null exactly if the algorithm has free-energy data.  Moving the builder's
  elements leaves null pointers in the builder's list.
\<close>

definition createElementLists ::
  "BuiltObjects \<Rightarrow> ModularSimulatorAlgorithmBuilder \<Rightarrow> ('tm, 'a) ModularSimulatorAlgorithm \<Rightarrow>
   ('tm, 'a) ModularSimulatorAlgorithm \<times> ModularSimulatorAlgorithmBuilder"
where
  "createElementLists bo b2 a6 =
     (let a7 = a6\<lparr>elementCallList := elementCallList a6 @ [builtCheckpointHelper bo]\<rparr>;
          a8 = (if freeEnergyPerturbationData a7 \<noteq> None
                then a7\<lparr>elementsOwnershipList :=
                          elementsOwnershipList a7 @ [Some (builtFreeEnergyPerturbationElement bo)],
                        elementCallList :=
                          elementCallList a7 @ [builtFreeEnergyPerturbationElement bo]\<rparr>
                else a7);
          a9 = a8\<lparr>elementsOwnershipList := elementsOwnershipList a8 @ elements b2,
                 elementCallList := elementCallList a8 @ callList b2\<rparr>;
          b3 = b2\<lparr>elements := map (\<lambda>p. None) (elements b2)\<rparr>;
          a10 = a9\<lparr>elementsOwnershipList :=
                     elementsOwnershipList a9 @ [Some (builtTrajectoryElement bo)],
                   elementCallList := elementCallList a9 @ [builtTrajectoryElement bo]\<rparr>
      in (a10, b3))"

definition assemble ::
  "BuiltObjects \<Rightarrow> ('w, 'tm, 'a) Collaborators \<Rightarrow> 'tm SimulationInput \<Rightarrow>
   ModularSimulatorAlgorithmBuilder \<times> 'w \<Rightarrow>
   Fault + (SetupError + ('tm, 'a) ModularSimulatorAlgorithm) \<times> ModularSimulatorAlgorithmBuilder \<times> 'w"
where
  "assemble bo c inp x =
     (case constructAlgorithm bo c inp x of
        (a3, b2, w4) \<Rightarrow>
          if domainDecomp inp \<and> checkBondedInteractionsCallback b2 = None
          then Inr (Inl (SimulationAlgorithmSetupError
                           ''Requested CheckBondedInteractionsCallback before it was set.''), b2, w4)
          else
            (case buildSignallers bo c (buildHelpers bo c inp (a3, w4)) of
               (a6, w9) \<Rightarrow>
                 (case createElementLists bo b2 a6 of
                    (a10, b3) \<Rightarrow>
                      (case algorithmSetup c inp (a10, w9) of
                         Inl fault \<Rightarrow> Inl fault
                       | Inr (a11, w10) \<Rightarrow> Inr (Inr a11, b3, w10)))))"

definition build ::
  "BuiltObjects \<Rightarrow> ('w, 'tm, 'a) Collaborators \<Rightarrow> 'tm SimulationInput \<Rightarrow>
   ModularSimulatorAlgorithmBuilder \<times> 'w \<Rightarrow>
   Fault + (SetupError + ('tm, 'a) ModularSimulatorAlgorithm) \<times> ModularSimulatorAlgorithmBuilder \<times> 'w"
where
  "build bo c inp x =
     (case x of (b, w) \<Rightarrow>
        if algorithmHasBeenBuilt b
        then Inr (Inl (SimulationAlgorithmSetupError
                         ''Tried to build ModularSimulationAlgorithm more than once.''), b, w)
        else
          let b1 = b\<lparr>algorithmHasBeenBuilt := True\<rparr>;
              w1 = connectAll c ThermostatRegistration (thermostatRegistrationFunctions b1)
                     (propagatorThermostatConnections b1) w;
              w2 = connectAll c BarostatRegistration (barostatRegistrationFunctions b1)
                     (propagatorBarostatConnections b1) w1
          in assemble bo c inp (b1, w2))"

section \<open>Inverting a box matrix (invertmatrix.cpp)\<close>

text \<open>
  The matrix entries are floating-point numbers.  Their arithmetic is a parameter:
  \<open>'r\<close> is the type \<^verbatim>\<open>real\<close> of the entries and \<open>'d\<close> the type \<^verbatim>\<open>double\<close> of the
  determinant, with the operations the function uses.  \<open>limit\<close> is the value of
  \<^verbatim>\<open>100 * GMX_REAL_MIN\<close>, and \<open>assertionsEnabled\<close> says whether \<^verbatim>\<open>GMX_ASSERT\<close> is
  compiled in.
\<close>

datatype Dim = XX | YY | ZZ

type_synonym 'r Matrix3x3 = "Dim \<Rightarrow> Dim \<Rightarrow> 'r"

record ('r, 'd) Arithmetic =
  fzero :: 'r
  fone :: 'r
  fmul :: "'r \<Rightarrow> 'r \<Rightarrow> 'r"
  fdiv :: "'r \<Rightarrow> 'r \<Rightarrow> 'r"
  fsub :: "'r \<Rightarrow> 'r \<Rightarrow> 'r"
  fneg :: "'r \<Rightarrow> 'r"
  feq :: "'r \<Rightarrow> 'r \<Rightarrow> bool"
  toDouble :: "'r \<Rightarrow> 'd"
  dabs :: "'d \<Rightarrow> 'd"
  dle :: "'d \<Rightarrow> 'd \<Rightarrow> bool"
  limit :: 'd
  assertionsEnabled :: bool

datatype MatrixError = AssertionFailed string | RangeError string

definition setEntry :: "'r Matrix3x3 \<Rightarrow> Dim \<Rightarrow> Dim \<Rightarrow> 'r \<Rightarrow> 'r Matrix3x3" where
  "setEntry m i j v = m(i := (m i)(j := v))"

text \<open>
  \<^verbatim>\<open>Matrix3x3 invertBoxMatrix(const Matrix3x3& src)\<close>; \<open>dest0\<close> is the content of the
  local \<^verbatim>\<open>dest\<close> before the assignments.
\<close>

definition invertBoxMatrix ::
  "('r, 'd) Arithmetic \<Rightarrow> 'r Matrix3x3 \<Rightarrow> 'r Matrix3x3 \<Rightarrow> MatrixError + 'r Matrix3x3"
where
  "invertBoxMatrix ar dest0 src =
     (if assertionsEnabled ar \<and>
         \<not> (feq ar (src XX YY) (fzero ar) \<and> feq ar (src XX ZZ) (fzero ar) \<and> feq ar (src YY ZZ) (fzero ar))
      then Inl (AssertionFailed ''Must have zero above the leading diagonal'')
      else
        let tmp = toDouble ar (fmul ar (fmul ar (src XX XX) (src YY YY)) (src ZZ ZZ))
        in if dle ar (dabs ar tmp) (limit ar)
           then Inl (RangeError ''Cannot invert matrix, determinant is too close to zero'')
           else
             let d1 = setEntry dest0 XX XX (fdiv ar (fone ar) (src XX XX));
                 d2 = setEntry d1 YY YY (fdiv ar (fone ar) (src YY YY));
                 d3 = setEntry d2 ZZ ZZ (fdiv ar (fone ar) (src ZZ ZZ));
                 d4 = setEntry d3 ZZ XX
                        (fmul ar (fmul ar (fsub ar (fmul ar (fmul ar (src YY XX) (src ZZ YY)) (d3 YY YY))
                                                   (src ZZ XX))
                                          (d3 XX XX))
                                 (d3 ZZ ZZ));
                 d5 = setEntry d4 YY XX (fmul ar (fmul ar (fneg ar (src YY XX)) (d4 XX XX)) (d4 YY YY));
                 d6 = setEntry d5 ZZ YY (fmul ar (fmul ar (fneg ar (src ZZ YY)) (d5 YY YY)) (d5 ZZ ZZ));
                 d7 = setEntry d6 XX YY (fzero ar);
                 d8 = setEntry d7 XX ZZ (fzero ar);
                 d9 = setEntry d8 YY ZZ (fzero ar)
             in Inr d9)"

section \<open>Vocabulary of the properties\<close>

text \<open>
  \<open>contributions c s t callList w fs w'\<close>: asked in the order of \<open>callList\<close> to schedule
  step \<open>s\<close> at time \<open>t\<close>, starting in world \<open>w\<close>, the elements register the functions
  \<open>fs\<close> (each element's functions in the order it registers them) and leave world \<open>w'\<close>.
\<close>

inductive contributions ::
  "('w, 'tm, 'a) Collaborators \<Rightarrow> Step \<Rightarrow> 'tm \<Rightarrow> addr list \<Rightarrow> 'w \<Rightarrow> 'a list \<Rightarrow> 'w \<Rightarrow> bool"
  for c :: "('w, 'tm, 'a) Collaborators" and s :: Step and t :: 'tm
where
  contributions_none: "contributions c s t [] w [] w"
| contributions_next:
    "scheduleTask c e s t w = (fs, w1) \<Longrightarrow> contributions c s t es w1 gs w2 \<Longrightarrow>
     contributions c s t (e # es) w (fs @ gs) w2"

text \<open>
  The tasks of one step: the pre-step task, what the elements contribute in call-list
  order, the post-step task.
\<close>

definition stepBlock ::
  "('w, 'tm, 'a) Collaborators \<Rightarrow> 'tm SimulationInput \<Rightarrow> addr list \<Rightarrow> Step \<Rightarrow>
   ('tm, 'a) SimulatorRunFunction list \<Rightarrow> bool"
where
  "stepBlock c inp cl s blk =
     (\<exists>isNS w fs w'. contributions c s (stepTime inp s) cl w fs w' \<and>
        blk = PreStepTask (narrowToInt s) (stepTime inp s) isNS # map ElementTask fs
              @ [PostStepTask (narrowToInt s) (stepTime inp s)])"

text \<open>\<open>stepBlocks c inp cl s n q\<close>: \<open>q\<close> is the blocks of the \<open>n\<close> steps \<open>s, s + 1, ...\<close> in a row.\<close>

inductive stepBlocks ::
  "('w, 'tm, 'a) Collaborators \<Rightarrow> 'tm SimulationInput \<Rightarrow> addr list \<Rightarrow> Step \<Rightarrow> nat \<Rightarrow>
   ('tm, 'a) SimulatorRunFunction list \<Rightarrow> bool"
  for c :: "('w, 'tm, 'a) Collaborators" and inp :: "'tm SimulationInput" and cl :: "addr list"
where
  stepBlocks_none: "stepBlocks c inp cl s 0 []"
| stepBlocks_next:
    "stepBlock c inp cl s blk \<Longrightarrow> stepBlocks c inp cl (s + 1) n rest \<Longrightarrow>
     stepBlocks c inp cl s (Suc n) (blk @ rest)"

text \<open>
  \<open>passes c inp n x\<close> is the state after \<open>n + 1\<close> passes through the loop body from \<open>x\<close>;
  \<open>repeats c inp n x\<close> says that from \<open>x\<close> the loop condition holds after each of the
  first \<open>n\<close> passes and fails after pass \<open>n + 1\<close>.
\<close>

fun passes ::
  "('w, 'tm, 'a) Collaborators \<Rightarrow> 'tm SimulationInput \<Rightarrow> nat \<Rightarrow>
   ('tm, 'a) ModularSimulatorAlgorithm \<times> 'w \<times> 'tm \<Rightarrow> ('tm, 'a) ModularSimulatorAlgorithm \<times> 'w \<times> 'tm"
where
  "passes c inp 0 x = populateStep c inp x"
| "passes c inp (Suc n) x = passes c inp n (populateStep c inp x)"

fun repeats ::
  "('w, 'tm, 'a) Collaborators \<Rightarrow> 'tm SimulationInput \<Rightarrow> nat \<Rightarrow>
   ('tm, 'a) ModularSimulatorAlgorithm \<times> 'w \<times> 'tm \<Rightarrow> bool"
where
  "repeats c inp 0 x = (\<not> continueBatch (fst (populateStep c inp x)))"
| "repeats c inp (Suc n) x =
     (continueBatch (fst (populateStep c inp x)) \<and> repeats c inp n (populateStep c inp x))"


text \<open>The elements torn down by a sequence of calls, in the order of the calls.\<close>

fun tornDown :: "'tm ExternalCall list \<Rightarrow> addr list" where
  "tornDown [] = []"
| "tornDown (ElementTeardown e # calls) = e # tornDown calls"
| "tornDown (other # calls) = tornDown calls"

section \<open>Stub collaborators\<close>

text \<open>
  Collaborators to run the scheduler on.  The world records every call; an element
  contributes one function per step, named by the element and the step; time is the
  step number (start time 0, time increment 1).  Signaller 1 reports every step that
  is a multiple of \<open>nstlist\<close> as neighbour-search step; signaller 2 reports the step
  \<open>stopStep\<close>, or the first step at which it sees a stop request, as last step, and
  nothing after it has seen a stop request.
\<close>

record StubWorld =
  calls :: "int ExternalCall list"
  signalled :: "(addr \<times> Step) list"
  stopRequested :: bool
  signalledStopCondition :: bool

definition stubSignal ::
  "int \<Rightarrow> Step \<Rightarrow> addr \<Rightarrow> Step \<Rightarrow> int \<Rightarrow> StubWorld \<Rightarrow> SignallerCallback list \<times> StubWorld"
where
  "stubSignal nstlist stopStep sg s t w0 =
     (let w = w0\<lparr>signalled := signalled w0 @ [(sg, s)]\<rparr>
      in if sg = 1 then (if s mod nstlist = 0 then [NSCallback s] else [], w)
         else if sg = 2 then
           (if signalledStopCondition w then ([], w)
            else (if s = stopStep \<or> stopRequested w then [LastStepCallback s] else [],
                  w\<lparr>signalledStopCondition := stopRequested w\<rparr>))
         else ([], w))"

definition stubCollaborators :: "int \<Rightarrow> Step \<Rightarrow> (StubWorld, int, addr \<times> Step) Collaborators" where
  "stubCollaborators nstlist stopStep =
     \<lparr> externalCall = (\<lambda>call w. w\<lparr>calls := calls w @ [call]\<rparr>),
       signal = stubSignal nstlist stopStep,
       scheduleTask = (\<lambda>e s t w. ([(e, s)], w)),
       stoppingAfterCurrentStep = (\<lambda>isNS w. stopRequested w) \<rparr>"

definition stubInput :: "int SimulationInput" where
  "stubInput = \<lparr> init_step = 0, stepTime = (\<lambda>s. s), writeConfout = True, isMaster = True,
                 hasPmeDuty = True, doPmeLoadBalancing = False, domainDecomp = False \<rparr>"

definition stubWorld :: StubWorld where
  "stubWorld = \<lparr> calls = [], signalled = [], stopRequested = False, signalledStopCondition = False \<rparr>"

definition stubObjects :: BuiltObjects where
  "stubObjects =
     \<lparr> builtSignalHelper = 25, builtStopHandler = 22, builtResetHandler = 23,
       builtTopologyHolder = 24, builtPmeLoadBalanceHelper = 26, builtDomDecHelper = 27,
       builtTrajectoryElement = 13, builtFreeEnergyPerturbationElement = 14,
       builtCheckpointHelper = 10,
       builtEnergySignaller = 5, builtTrajectorySignaller = 4, builtLoggingSignaller = 3,
       builtLastStepSignaller = 2, builtNeighborSearchSignaller = 1,
       defaultLastStep = 9223372036854775807, defaultNextNSStep = - 1,
       defaultStophandlerIsNSStep = False, defaultStophandlerCurrentStep = - 1 \<rparr>"

text \<open>
  A builder to which two elements (11 and 12) have been added, 12 before 11 in the call
  list, and a thermostat (registration function 30) but no propagator connection.
\<close>

definition stubBuilder :: ModularSimulatorAlgorithmBuilder where
  "stubBuilder =
     \<lparr> algorithmHasBeenBuilt = False,
       thermostatRegistrationFunctions = [30], propagatorThermostatConnections = [],
       barostatRegistrationFunctions = [], propagatorBarostatConnections = [],
       elements = [Some 11, Some 12], callList = [12, 11], setupAndTeardownList = [12, 11],
       builderStatePropagatorData = Some 20, builderEnergyData = Some 21,
       builderFreeEnergyPerturbationData = None, checkBondedInteractionsCallback = None \<rparr>"

text \<open>
  The scheduler as \<^verbatim>\<open>build()\<close> leaves it for the signallers 1 and 2 and the call list
  \<open>[10, 11, 12]\<close>, about to schedule step \<open>s\<close>.
\<close>

definition stubAlgorithm :: "Step \<Rightarrow> (int, addr \<times> Step) ModularSimulatorAlgorithm" where
  "stubAlgorithm s =
     \<lparr> taskQueue = [], taskIterator = 0, step = s, runFinished = False,
       lastStep = 9223372036854775807, nextNSStep = - 1,
       stophandlerIsNSStep = False, stophandlerCurrentStep = - 1,
       signallerList = [1, 2], elementsOwnershipList = [Some 11, Some 12],
       elementCallList = [10, 11, 12],
       statePropagatorData = Some 20, energyData = Some 21, freeEnergyPerturbationData = None,
       stopHandler = Some 22, resetHandler = Some 23, topologyHolder = Some 24,
       checkpointHelper = Some 10, pmeLoadBalanceHelper = None, domDecHelper = None \<rparr>"

text \<open>
  The state after the scheduler has generated, from step 4 with \<open>nstlist = 2\<close> and last
  step 5, the batch of the steps 4 and 5, and the world then.
\<close>

definition stubFinalBatch :: "(int, addr \<times> Step) ModularSimulatorAlgorithm" where
  "stubFinalBatch =
     (stubAlgorithm 4)\<lparr>taskQueue :=
        [PreStepTask 4 4 True, ElementTask (10, 4), ElementTask (11, 4), ElementTask (12, 4),
         PostStepTask 4 4,
         PreStepTask 5 5 False, ElementTask (10, 5), ElementTask (11, 5), ElementTask (12, 5),
         PostStepTask 5 5,
         TeardownTask],
        step := 6, runFinished := True, lastStep := 5, nextNSStep := 6\<rparr>"

definition stubFinalWorld :: StubWorld where
  "stubFinalWorld =
     stubWorld\<lparr>calls := [CheckpointHelperRun 4 4],
               signalled := [(1, 4), (2, 4), (1, 5), (2, 5), (1, 6), (2, 6)]\<rparr>"

text \<open>
  The state after the scheduler has generated, from step 2 with \<open>nstlist = 2\<close> and last
  step 100, the batch of the steps 2 and 3, and the world then.
\<close>

definition stubOpenBatch :: "(int, addr \<times> Step) ModularSimulatorAlgorithm" where
  "stubOpenBatch =
     (stubAlgorithm 2)\<lparr>taskQueue :=
        [PreStepTask 2 2 True, ElementTask (10, 2), ElementTask (11, 2), ElementTask (12, 2),
         PostStepTask 2 2,
         PreStepTask 3 3 False, ElementTask (10, 3), ElementTask (11, 3), ElementTask (12, 3),
         PostStepTask 3 3],
        step := 4, nextNSStep := 4\<rparr>"

definition stubOpenWorld :: StubWorld where
  "stubOpenWorld =
     stubWorld\<lparr>calls := [CheckpointHelperRun 2 2],
               signalled := [(1, 2), (2, 2), (1, 3), (2, 3), (1, 4), (2, 4)]\<rparr>"

text \<open>What \<^verbatim>\<open>build()\<close> returns and leaves for \<open>stubBuilder\<close>, and the world then.\<close>

definition stubBuilt :: "(int, addr \<times> Step) ModularSimulatorAlgorithm" where
  "stubBuilt =
     (stubAlgorithm 0)\<lparr>signallerList := [1, 2, 3, 4, 5],
                        elementsOwnershipList := [Some 11, Some 12, Some 13],
                        elementCallList := [10, 12, 11, 13]\<rparr>"

definition stubBuilderAfter :: ModularSimulatorAlgorithmBuilder where
  "stubBuilderAfter =
     stubBuilder\<lparr>algorithmHasBeenBuilt := True, elements := [None, None],
                 builderStatePropagatorData := None, builderEnergyData := None\<rparr>"

definition stubBuiltWorld :: StubWorld where
  "stubBuiltWorld =
     stubWorld\<lparr>calls :=
       [RegisterWithInfrastructureAndSignallers 25, RegisterWithInfrastructureAndSignallers 13,
        RegisterWithInfrastructureAndSignallers 10, RegisterWithInfrastructureAndSignallers 5,
        RegisterWithInfrastructureAndSignallers 4, RegisterWithInfrastructureAndSignallers 3,
        RegisterWithInfrastructureAndSignallers 2, RegisterWithInfrastructureAndSignallers 1,
        PrintRunHeader, WalltimeAccountingStartTime, WallcycleStartRun, PrintStart,
        SignallerSetup 1, SignallerSetup 2, SignallerSetup 3, SignallerSetup 4, SignallerSetup 5,
        ElementSetup 11, ElementSetup 12, ElementSetup 13, StatePropagatorDataSetup 20]\<rparr>"

text \<open>The arithmetic of the integers, to run \<open>invertBoxMatrix\<close> on.\<close>

definition intArithmetic :: "(int, int) Arithmetic" where
  "intArithmetic =
     \<lparr> fzero = 0, fone = 1, fmul = (*), fdiv = (div), fsub = (-), fneg = uminus,
       feq = (=), toDouble = (\<lambda>x. x), dabs = abs, dle = (\<le>), limit = 0,
       assertionsEnabled = True \<rparr>"

section \<open>Properties of the scheduler\<close>

subsection \<open>The loop of batch generation\<close>

lemma fold_applyCallback_frame:
  "\<exists>l n. fold applyCallback cbs a = a\<lparr>lastStep := l, nextNSStep := n\<rparr>"
proof (induction cbs arbitrary: a)
  case Nil
  have "a = a\<lparr>lastStep := lastStep a, nextNSStep := nextNSStep a\<rparr>" by simp
  then show ?case by (metis fold_simps(1))
next
  case (Cons cb cbs)
  obtain l n where
    "fold applyCallback cbs (applyCallback cb a) = (applyCallback cb a)\<lparr>lastStep := l, nextNSStep := n\<rparr>"
    using Cons.IH by blast
  then show ?case by (cases cb) auto
qed

lemma signalAll_frame:
  "signalAll c sgs s t (a, w) = (a', w') \<Longrightarrow> \<exists>l n. a' = a\<lparr>lastStep := l, nextNSStep := n\<rparr>"
proof (induction sgs arbitrary: a w)
  case Nil
  have "a = a\<lparr>lastStep := lastStep a, nextNSStep := nextNSStep a\<rparr>" by simp
  with Nil show ?case by (metis signalAll.simps(1) prod.inject)
next
  case (Cons sg sgs)
  obtain cbs w1 where sg: "signal c sg s t w = (cbs, w1)" by (cases "signal c sg s t w")
  obtain l n where f: "fold applyCallback cbs a = a\<lparr>lastStep := l, nextNSStep := n\<rparr>"
    using fold_applyCallback_frame by blast
  from Cons.prems sg have "signalAll c sgs s t (fold applyCallback cbs a, w1) = (a', w')" by simp
  from Cons.IH[OF this] obtain l' n' where
    "a' = (fold applyCallback cbs a)\<lparr>lastStep := l', nextNSStep := n'\<rparr>" by blast
  with f show ?case by auto
qed

lemma scheduleElements_contributions:
  "scheduleElements c es s t (q, w) = (q', w') \<Longrightarrow>
   \<exists>fs. q' = q @ map ElementTask fs \<and> contributions c s t es w fs w'"
proof (induction es arbitrary: q w)
  case Nil
  then show ?case by (auto intro: contributions_none)
next
  case (Cons e es)
  obtain fs w1 where e: "scheduleTask c e s t w = (fs, w1)" by (cases "scheduleTask c e s t w")
  with Cons.prems have "scheduleElements c es s t (q @ map ElementTask fs, w1) = (q', w')" by simp
  from Cons.IH[OF this] obtain gs where
    "q' = (q @ map ElementTask fs) @ map ElementTask gs" "contributions c s t es w1 gs w'" by blast
  with e have "q' = q @ map ElementTask (fs @ gs)" "contributions c s t (e # es) w (fs @ gs) w'"
    by (auto intro: contributions_next)
  then show ?case by blast
qed

lemma populateLoop_returns:
  "repeats c inp n x \<Longrightarrow> populateLoop c inp x = Some (passes c inp n x)"
proof (induction n arbitrary: x)
  case 0
  then show ?case by (subst populateLoop.simps) (simp add: Let_def)
next
  case (Suc n)
  then show ?case by (subst populateLoop.simps) (simp add: Let_def)
qed

lemma populateLoop_passes:
  fixes c :: "('w, 'tm, 'a) Collaborators"
  assumes "populateLoop c inp x = Some y"
  shows "\<exists>n. repeats c inp n x \<and> y = passes c inp n x"
proof -
  define P where "P = (\<lambda>(c :: ('w, 'tm, 'a) Collaborators) inp x y.
    \<exists>n. repeats c inp n x \<and> y = passes c inp n x)"
  have "P c inp x y"
  proof (rule populateLoop.raw_induct[where P = P and xa = "((c, inp), x)" and y = y, simplified])
    fix f c inp x y
    assume IH: "\<And>inp x b y. f inp x b = Some y \<Longrightarrow> P inp x b y"
      and eq: "(let x' = populateStep c inp x
                in if continueBatch (fst x') then f c inp x' else Some x') = Some y"
    show "P c inp x y"
    proof (cases "continueBatch (fst (populateStep c inp x))")
      case False
      with eq have "y = populateStep c inp x" by (simp add: Let_def)
      with False have "repeats c inp 0 x \<and> y = passes c inp 0 x" by simp
      then show ?thesis unfolding P_def by blast
    next
      case True
      with eq have "f c inp (populateStep c inp x) = Some y" by (simp add: Let_def)
      from IH[OF this] obtain n where "repeats c inp n (populateStep c inp x)"
        "y = passes c inp n (populateStep c inp x)" unfolding P_def by blast
      with True have "repeats c inp (Suc n) x \<and> y = passes c inp (Suc n) x" by simp
      then show ?thesis unfolding P_def by blast
    qed
  next
    show "populateLoop c inp x = Some y" by (rule assms)
  qed
  then show ?thesis unfolding P_def .
qed

lemma populateStep_effect:
  fixes c :: "('w, 'tm, 'a) Collaborators"
  assumes "populateStep c inp (a, w, time) = (a', w', time')"
  shows "\<exists>isNS fs w1 l n.
           contributions c (step a) time (elementCallList a) w fs w1 \<and>
           a' = a\<lparr>taskQueue := taskQueue a @ (PreStepTask (narrowToInt (step a)) time isNS
                                 # map ElementTask fs @ [PostStepTask (narrowToInt (step a)) time]),
                  step := step a + 1, lastStep := l, nextNSStep := n\<rparr> \<and>
           time' = stepTime inp (step a + 1)"
proof -
  define q1 where
    "q1 = taskQueue a @ [PreStepTask (narrowToInt (step a)) time (narrowToInt (step a) = nextNSStep a)]"
  obtain q2 w2 where se: "scheduleElements c (elementCallList a) (step a) time (q1, w) = (q2, w2)"
    by (cases "scheduleElements c (elementCallList a) (step a) time (q1, w)")
  define a1 where
    "a1 = a\<lparr>taskQueue := q2 @ [PostStepTask (narrowToInt (step a)) time], step := step a + 1\<rparr>"
  obtain a2 w3 where
    sa: "signalAll c (signallerList a1) (step a1) (stepTime inp (step a1)) (a1, w2) = (a2, w3)"
    by (cases "signalAll c (signallerList a1) (step a1) (stepTime inp (step a1)) (a1, w2)")
  have res: "populateStep c inp (a, w, time) = (a2, w3, stepTime inp (step a1))"
    using se sa by (simp add: populateStep_def Let_def q1_def a1_def)
  from scheduleElements_contributions[OF se] obtain fs where
    fs: "q2 = q1 @ map ElementTask fs" "contributions c (step a) time (elementCallList a) w fs w2"
    by blast
  from signalAll_frame[OF sa] obtain l n where ln: "a2 = a1\<lparr>lastStep := l, nextNSStep := n\<rparr>"
    by blast
  have "a' = a\<lparr>taskQueue := taskQueue a @
                    (PreStepTask (narrowToInt (step a)) time (narrowToInt (step a) = nextNSStep a)
                     # map ElementTask fs @ [PostStepTask (narrowToInt (step a)) time]),
                  step := step a + 1, lastStep := l, nextNSStep := n\<rparr>"
    using assms res ln fs(1) by (simp add: a1_def q1_def)
  moreover have "time' = stepTime inp (step a + 1)" using assms res by (simp add: a1_def)
  ultimately show ?thesis using fs(2) by blast
qed

lemma passes_shape:
  fixes c :: "('w, 'tm, 'a) Collaborators"
  assumes "passes c inp n (a, w, time) = (a', w', time')" and "time = stepTime inp (step a)"
  shows "\<exists>bs l ns. stepBlocks c inp (elementCallList a) (step a) (Suc n) bs \<and>
           a' = a\<lparr>taskQueue := taskQueue a @ bs, step := step a + 1 + int n,
                  lastStep := l, nextNSStep := ns\<rparr>"
  using assms
proof (induction n arbitrary: a w time)
  case 0
  then have ps: "populateStep c inp (a, w, time) = (a', w', time')" by simp
  from populateStep_effect[OF ps] obtain isNS fs w1 l n where
    e: "contributions c (step a) time (elementCallList a) w fs w1"
       "a' = a\<lparr>taskQueue := taskQueue a @ (PreStepTask (narrowToInt (step a)) time isNS
                                 # map ElementTask fs @ [PostStepTask (narrowToInt (step a)) time]),
                  step := step a + 1, lastStep := l, nextNSStep := n\<rparr>" by blast
  let ?blk = "PreStepTask (narrowToInt (step a)) time isNS
                # map ElementTask fs @ [PostStepTask (narrowToInt (step a)) time]"
  have "stepBlock c inp (elementCallList a) (step a) ?blk"
    unfolding stepBlock_def using e(1) 0(2) by blast
  then have "stepBlocks c inp (elementCallList a) (step a) (Suc 0) (?blk @ [])"
    by (intro stepBlocks_next stepBlocks_none)
  with e(2) show ?case by (intro exI[of _ ?blk] exI[of _ l] exI[of _ n]) simp
next
  case (Suc n)
  obtain a1 w1 t1 where ps: "populateStep c inp (a, w, time) = (a1, w1, t1)"
    by (cases "populateStep c inp (a, w, time)")
  from populateStep_effect[OF ps] obtain isNS fs w2 l m where
    e: "contributions c (step a) time (elementCallList a) w fs w2"
       "a1 = a\<lparr>taskQueue := taskQueue a @ (PreStepTask (narrowToInt (step a)) time isNS
                                 # map ElementTask fs @ [PostStepTask (narrowToInt (step a)) time]),
                  step := step a + 1, lastStep := l, nextNSStep := m\<rparr>"
       "t1 = stepTime inp (step a + 1)" by blast
  let ?blk = "PreStepTask (narrowToInt (step a)) time isNS
                # map ElementTask fs @ [PostStepTask (narrowToInt (step a)) time]"
  have blk: "stepBlock c inp (elementCallList a) (step a) ?blk"
    unfolding stepBlock_def using e(1) Suc.prems(2) by blast
  have p: "passes c inp n (a1, w1, t1) = (a', w', time')" using Suc.prems(1) ps by simp
  have t1: "t1 = stepTime inp (step a1)" using e(2,3) by simp
  from Suc.IH[OF p t1] obtain bs l' ns' where
    r: "stepBlocks c inp (elementCallList a1) (step a1) (Suc n) bs"
       "a' = a1\<lparr>taskQueue := taskQueue a1 @ bs, step := step a1 + 1 + int n,
                  lastStep := l', nextNSStep := ns'\<rparr>" by blast
  have "stepBlocks c inp (elementCallList a) (step a + 1) (Suc n) bs" using r(1) e(2) by simp
  with blk have "stepBlocks c inp (elementCallList a) (step a) (Suc (Suc n)) (?blk @ bs)"
    by (rule stepBlocks_next)
  moreover have "a' = a\<lparr>taskQueue := taskQueue a @ (?blk @ bs), step := step a + 1 + int (Suc n),
                  lastStep := l', nextNSStep := ns'\<rparr>" using r(2) e(2) by simp
  ultimately show ?case by blast
qed

lemma beforeLoop_frame:
  fixes c :: "('w, 'tm, 'a) Collaborators"
  shows "\<exists>l n w1. beforeLoop c inp (a, w) = (a\<lparr>lastStep := l, nextNSStep := n\<rparr>, w1, stepTime inp (step a))"
proof -
  obtain a1 w1 where
    sa: "signalAll c (signallerList a) (step a) (stepTime inp (step a)) (a, w) = (a1, w1)"
    by (cases "signalAll c (signallerList a) (step a) (stepTime inp (step a)) (a, w)")
  from signalAll_frame[OF sa] obtain l n where "a1 = a\<lparr>lastStep := l, nextNSStep := n\<rparr>" by blast
  with sa have "\<exists>w1. beforeLoop c inp (a, w) = (a\<lparr>lastStep := l, nextNSStep := n\<rparr>, w1, stepTime inp (step a))"
    by (simp add: beforeLoop_def Let_def)
  then show ?thesis by blast
qed

lemma populateTaskQueue_Some_iff:
  "populateTaskQueue c inp x = Some y \<longleftrightarrow>
   (\<exists>n. repeats c inp n (beforeLoop c inp x) \<and> y = afterLoop (passes c inp n (beforeLoop c inp x)))"
proof
  assume "populateTaskQueue c inp x = Some y"
  then obtain z where z: "populateLoop c inp (beforeLoop c inp x) = Some z" "y = afterLoop z"
    by (auto simp: populateTaskQueue_def split: option.splits)
  from populateLoop_passes[OF z(1)] z(2)
  show "\<exists>n. repeats c inp n (beforeLoop c inp x) \<and> y = afterLoop (passes c inp n (beforeLoop c inp x))"
    by blast
next
  assume "\<exists>n. repeats c inp n (beforeLoop c inp x) \<and> y = afterLoop (passes c inp n (beforeLoop c inp x))"
  then obtain n where "repeats c inp n (beforeLoop c inp x)"
    "y = afterLoop (passes c inp n (beforeLoop c inp x))" by blast
  then show "populateTaskQueue c inp x = Some y"
    by (simp add: populateTaskQueue_def populateLoop_returns)
qed

lemma populateTaskQueue_shape:
  fixes c :: "('w, 'tm, 'a) Collaborators"
  assumes "populateTaskQueue c inp (a, w) = Some (a', w')"
  shows "\<exists>n bs l ns. stepBlocks c inp (elementCallList a) (step a) (Suc n) bs \<and>
           a' = a\<lparr>taskQueue := taskQueue a @ bs @ (if l < step a + 1 + int n then [TeardownTask] else []),
                  step := step a + 1 + int n, runFinished := (l < step a + 1 + int n),
                  lastStep := l, nextNSStep := ns\<rparr>"
proof -
  obtain l0 n0 w0 where bl: "beforeLoop c inp (a, w) = (a\<lparr>lastStep := l0, nextNSStep := n0\<rparr>, w0, stepTime inp (step a))"
    using beforeLoop_frame[of c inp a w] by blast
  from assms obtain n where
    n: "(a', w') = afterLoop (passes c inp n (beforeLoop c inp (a, w)))"
    unfolding populateTaskQueue_Some_iff by blast
  obtain a2 w2 t2 where p: "passes c inp n (a\<lparr>lastStep := l0, nextNSStep := n0\<rparr>, w0, stepTime inp (step a)) = (a2, w2, t2)"
    by (cases "passes c inp n (a\<lparr>lastStep := l0, nextNSStep := n0\<rparr>, w0, stepTime inp (step a))")
  have "stepTime inp (step a) = stepTime inp (step (a\<lparr>lastStep := l0, nextNSStep := n0\<rparr>))" by simp
  from passes_shape[OF p this] obtain bs l ns where
    sh: "stepBlocks c inp (elementCallList a) (step a) (Suc n) bs"
        "a2 = a\<lparr>taskQueue := taskQueue a @ bs, step := step a + 1 + int n,
                  lastStep := l, nextNSStep := ns\<rparr>" by auto
  have "a' = a\<lparr>taskQueue := taskQueue a @ bs @ (if l < step a + 1 + int n then [TeardownTask] else []),
                  step := step a + 1 + int n, runFinished := (l < step a + 1 + int n),
                  lastStep := l, nextNSStep := ns\<rparr>"
    using n bl p sh(2) by (simp add: afterLoop_def Let_def)
  with sh(1) show ?thesis by blast
qed

subsection \<open>The stub run\<close>

lemmas stub_defs =
  stubCollaborators_def stubSignal_def stubInput_def stubWorld_def stubAlgorithm_def

lemmas run_defs =
  beforeLoop_def afterLoop_def populateStep_def continueBatch_def runIfPresent_def
  narrowToInt_def Let_def

lemma stub_populate_final:
  "populateTaskQueue (stubCollaborators 2 5) stubInput (stubAlgorithm 4, stubWorld)
   = Some (stubFinalBatch, stubFinalWorld)"
  unfolding populateTaskQueue_Some_iff
  by (rule exI[of _ "Suc 0"])
     (simp add: stub_defs run_defs stubFinalBatch_def stubFinalWorld_def)

subsection \<open>The shape of a batch\<close>

text \<open>
  C1.  Whenever \<open>populateTaskQueue\<close> returns, what it has appended to the task queue is:
  for each step of a contiguous range that starts at the step counter's value on entry
  and has at least one step, the pre-step task, the tasks the elements contribute in
  call-list order, and the post-step task; then the teardown task, if and only if the
  run is finished, which is when the step counter has exceeded the last step.  The step
  counter ends one past the range.
\<close>

theorem populateTaskQueue_batch_shape:
  fixes c :: "('w, 'tm, 'a) Collaborators"
  assumes "populateTaskQueue c inp (a, w) = Some (a', w')"
  shows "\<exists>n bs. stepBlocks c inp (elementCallList a) (step a) (Suc n) bs \<and>
           taskQueue a' = taskQueue a @ bs @ (if runFinished a' then [TeardownTask] else []) \<and>
           step a' = step a + 1 + int n \<and>
           runFinished a' = (lastStep a' < step a')"
proof -
  from populateTaskQueue_shape[OF assms] obtain n bs l ns where
    sh: "stepBlocks c inp (elementCallList a) (step a) (Suc n) bs"
        "a' = a\<lparr>taskQueue := taskQueue a @ bs @ (if l < step a + 1 + int n then [TeardownTask] else []),
                  step := step a + 1 + int n, runFinished := (l < step a + 1 + int n),
                  lastStep := l, nextNSStep := ns\<rparr>" by blast
  have "taskQueue a' = taskQueue a @ bs @ (if runFinished a' then [TeardownTask] else [])"
    using sh(2) by simp
  moreover have "step a' = step a + 1 + int n" using sh(2) by simp
  moreover have "runFinished a' = (lastStep a' < step a')" using sh(2) by simp
  ultimately show ?thesis using sh(1) by blast
qed

theorem populateTaskQueue_batch_shape_witness:
  "populateTaskQueue (stubCollaborators 2 5) stubInput (stubAlgorithm 4, stubWorld)
     = Some (stubFinalBatch, stubFinalWorld) \<and>
   (\<exists>n bs. stepBlocks (stubCollaborators 2 5) stubInput (elementCallList (stubAlgorithm 4))
              (step (stubAlgorithm 4)) (Suc n) bs \<and>
      taskQueue stubFinalBatch
        = taskQueue (stubAlgorithm 4) @ bs @ (if runFinished stubFinalBatch then [TeardownTask] else []) \<and>
      step stubFinalBatch = step (stubAlgorithm 4) + 1 + int n \<and>
      runFinished stubFinalBatch = (lastStep stubFinalBatch < step stubFinalBatch))"
  using populateTaskQueue_batch_shape[OF stub_populate_final] stub_populate_final by blast

lemma stub_populate_open:
  "populateTaskQueue (stubCollaborators 2 100) stubInput (stubAlgorithm 2, stubWorld)
   = Some (stubOpenBatch, stubOpenWorld)"
  unfolding populateTaskQueue_Some_iff
  by (rule exI[of _ "Suc 0"])
     (simp add: stub_defs run_defs stubOpenBatch_def stubOpenWorld_def)

lemma stub_first_task_final:
  "getNextTask (stubCollaborators 2 5) stubInput (stubAlgorithm 4, stubWorld)
   = Some (Inr (Some (PreStepTask 4 4 True), stubFinalBatch, stubFinalWorld))"
proof -
  have "updateTaskQueue (stubCollaborators 2 5) stubInput (stubAlgorithm 4, stubWorld)
        = Some (stubFinalBatch, stubFinalWorld)"
    using stub_populate_final by (simp add: updateTaskQueue_def stubAlgorithm_def)
  then show ?thesis
    by (simp add: getNextTask_def advanceCursor_def cursorAtEnd_def dereference_def
          stubAlgorithm_def stubFinalBatch_def)
qed

lemma stub_first_task_open:
  "getNextTask (stubCollaborators 2 100) stubInput (stubAlgorithm 2, stubWorld)
   = Some (Inr (Some (PreStepTask 2 2 True), stubOpenBatch, stubOpenWorld))"
proof -
  have "updateTaskQueue (stubCollaborators 2 100) stubInput (stubAlgorithm 2, stubWorld)
        = Some (stubOpenBatch, stubOpenWorld)"
    using stub_populate_open by (simp add: updateTaskQueue_def stubAlgorithm_def)
  then show ?thesis
    by (simp add: getNextTask_def advanceCursor_def cursorAtEnd_def dereference_def
          stubAlgorithm_def stubOpenBatch_def)
qed

subsection \<open>The pre-step task\<close>

lemma preStep_arms:
  "\<not> (stoppingAfterCurrentStep c isNS w \<and> stp \<noteq> lastStep a) \<Longrightarrow>
   preStep c stp time isNS (a, w) =
     (a\<lparr>stophandlerIsNSStep := isNS, stophandlerCurrentStep := stp\<rparr>,
      externalCall c WallcycleStartStep
        (externalCall c (StopHandlerSetSignal stp isNS) (externalCall c ResetHandlerSetSignal w)))"
  by (auto simp: preStep_def Let_def)

text \<open>
  C9.  In the discard-and-rewind branch \<open>preStep\<close> returns the scheduler with the task
  queue emptied and the step counter set to the task's step, and nothing else changed:
  the fields the stop handler reads keep their values, and the world is the one it
  started in, so the reset handler's and the stop handler's \<^verbatim>\<open>setSignal\<close> and
  \<^verbatim>\<open>wallcycle_start\<close> have not been called.
\<close>

theorem preStep_rewind_frame:
  assumes "stoppingAfterCurrentStep c isNS w" and "stp \<noteq> lastStep a"
  shows "preStep c stp time isNS (a, w) = (a\<lparr>taskQueue := [], step := stp\<rparr>, w) \<and>
         stophandlerIsNSStep (fst (preStep c stp time isNS (a, w))) = stophandlerIsNSStep a \<and>
         stophandlerCurrentStep (fst (preStep c stp time isNS (a, w))) = stophandlerCurrentStep a \<and>
         taskIterator (fst (preStep c stp time isNS (a, w))) = taskIterator a \<and>
         runFinished (fst (preStep c stp time isNS (a, w))) = runFinished a"
  using assms by (simp add: preStep_def)

theorem preStep_rewind_frame_witness:
  "stoppingAfterCurrentStep (stubCollaborators 2 100) False (stubOpenWorld\<lparr>stopRequested := True\<rparr>) \<and>
   3 \<noteq> lastStep stubOpenBatch \<and>
   preStep (stubCollaborators 2 100) 3 3 False (stubOpenBatch, stubOpenWorld\<lparr>stopRequested := True\<rparr>)
     = (stubOpenBatch\<lparr>taskQueue := [], step := 3\<rparr>, stubOpenWorld\<lparr>stopRequested := True\<rparr>) \<and>
   calls (snd (preStep (stubCollaborators 2 100) 3 3 False
                 (stubOpenBatch, stubOpenWorld\<lparr>stopRequested := True\<rparr>)))
     = [CheckpointHelperRun 2 2]"
proof -
  have h1: "stoppingAfterCurrentStep (stubCollaborators 2 100) False (stubOpenWorld\<lparr>stopRequested := True\<rparr>)"
    by (simp add: stubCollaborators_def)
  have h2: "3 \<noteq> lastStep stubOpenBatch"
    by (simp add: stubOpenBatch_def stubAlgorithm_def)
  from preStep_rewind_frame[OF h1 h2, of 3] h1 h2 show ?thesis
    by (simp add: stubOpenWorld_def stubWorld_def)
qed

subsection \<open>The step counter\<close>



lemma populateStep_step:
  "step (fst (populateStep c inp x)) = step (fst x) + 1"
proof -
  obtain a w t where x: "x = (a, w, t)" by (cases x)
  obtain a' w' t' where r: "populateStep c inp (a, w, t) = (a', w', t')"
    by (cases "populateStep c inp (a, w, t)")
  from populateStep_effect[OF r] have "step a' = step a + 1" by auto
  with x r show ?thesis by simp
qed



subsection \<open>Pulling tasks\<close>

lemma stepBlocks_first:
  assumes "stepBlocks c inp cl s (Suc n) bs"
  shows "\<exists>isNS rest. bs = PreStepTask (narrowToInt s) (stepTime inp s) isNS # rest"
proof -
  from assms obtain blk rest where "bs = blk @ rest" "stepBlock c inp cl s blk"
    by (cases rule: stepBlocks.cases) auto
  then show ?thesis by (auto simp: stepBlock_def)
qed

lemma advanceCursor_frame:
  "step (advanceCursor a) = step a" "runFinished (advanceCursor a) = runFinished a"
  "taskQueue (advanceCursor a) = taskQueue a" "elementCallList (advanceCursor a) = elementCallList a"
  by (simp_all add: advanceCursor_def)

lemma getNextTask_regenerates:
  fixes c :: "('w, 'tm, 'a) Collaborators"
  assumes "cursorAtEnd (advanceCursor a)" and "\<not> runFinished a"
    and u: "updateTaskQueue c inp (advanceCursor a, w) = Some (a2, w2)"
  shows "\<exists>isNS rest.
           taskQueue a2 = PreStepTask (narrowToInt (step a)) (stepTime inp (step a)) isNS # rest \<and>
           getNextTask c inp (a, w) =
             Some (Inr (Some (PreStepTask (narrowToInt (step a)) (stepTime inp (step a)) isNS),
                        a2\<lparr>taskIterator := 0\<rparr>, w2))"
proof -
  from u have "populateTaskQueue c inp ((advanceCursor a)\<lparr>taskQueue := []\<rparr>, w) = Some (a2, w2)"
    by (simp add: updateTaskQueue_def)
  from populateTaskQueue_shape[OF this] obtain n bs l ns where
    sh: "stepBlocks c inp (elementCallList a) (step a) (Suc n) bs"
        "taskQueue a2 = bs @ (if l < step a + 1 + int n then [TeardownTask] else [])"
    by (auto simp: advanceCursor_frame)
  from stepBlocks_first[OF sh(1)] obtain isNS rest where
    "bs = PreStepTask (narrowToInt (step a)) (stepTime inp (step a)) isNS # rest" by blast
  with sh(2) have q: "taskQueue a2 = PreStepTask (narrowToInt (step a)) (stepTime inp (step a)) isNS
                        # (rest @ (if l < step a + 1 + int n then [TeardownTask] else []))" by simp
  then have "getNextTask c inp (a, w) =
             Some (Inr (Some (PreStepTask (narrowToInt (step a)) (stepTime inp (step a)) isNS),
                        a2\<lparr>taskIterator := 0\<rparr>, w2))"
    using assms by (simp add: getNextTask_def Let_def advanceCursor_frame dereference_def)
  with q show ?thesis by blast
qed

lemma dereference_not_terminal: "dereference x \<noteq> Inr (None, y)"
  by (cases x) (simp add: dereference_def)

lemma getNextTask_terminal_iff:
  "(\<exists>a' w'. getNextTask c inp (a, w) = Some (Inr (None, a', w'))) \<longleftrightarrow>
   (cursorAtEnd (advanceCursor a) \<and> runFinished a)"
  by (auto simp: getNextTask_def Let_def advanceCursor_frame dereference_not_terminal
           split: option.splits)

lemma getNextTask_terminal_state:
  assumes "getNextTask c inp (a, w) = Some (Inr (None, a', w'))"
  shows "a' = advanceCursor a \<and> w' = w \<and> cursorAtEnd (advanceCursor a) \<and> runFinished a"
  using assms
  by (auto simp: getNextTask_def Let_def advanceCursor_frame dereference_not_terminal
           split: option.splits if_splits)

lemma getNextTask_after_terminal:
  assumes "getNextTask c inp (a, w) = Some (Inr (None, a', w'))"
  shows "getNextTask c inp (a', w') =
           (if taskQueue a = [] then Some (Inr (None, a', w')) else Some (Inl InvalidIteratorDereference))"
proof -
  from getNextTask_terminal_state[OF assms] have
    s: "a' = advanceCursor a" "w' = w" "cursorAtEnd (advanceCursor a)" "runFinished a" by auto
  show ?thesis
  proof (cases "taskQueue a = []")
    case True
    then have "advanceCursor a = a" by (simp add: advanceCursor_def)
    with s assms True show ?thesis by simp
  next
    case False
    with s(3) have "taskIterator a + 1 = length (taskQueue a)"
      by (simp add: cursorAtEnd_def advanceCursor_def)
    with False s(1,2) show ?thesis
      by (simp add: getNextTask_def Let_def advanceCursor_def cursorAtEnd_def dereference_def)
  qed
qed

text \<open>
  C2, as amended.  \<open>getNextTask\<close> returns the terminal value exactly when the cursor,
  advanced if the queue is not empty, is at the end of the queue and the run is marked
  finished.  When the cursor is at the end and the run is not marked finished, it
  discards the queue and generates a new batch: if generation returns, it sets the cursor
  to the start and returns the first task of the new batch, the pre-step task of the
  current step; if generation does not return, neither does \<open>getNextTask\<close>.  A call
  that follows a terminal return returns the terminal value again only if the queue is
  empty; otherwise it moves the cursor beyond the end and dereferences it.
\<close>

theorem getNextTask_terminal:
  fixes c :: "('w, 'tm, 'a) Collaborators"
  shows "((\<exists>a' w'. getNextTask c inp (a, w) = Some (Inr (None, a', w'))) \<longleftrightarrow>
            (cursorAtEnd (advanceCursor a) \<and> runFinished a)) \<and>
         (cursorAtEnd (advanceCursor a) \<and> \<not> runFinished a \<longrightarrow>
            (case updateTaskQueue c inp (advanceCursor a, w) of
               None \<Rightarrow> getNextTask c inp (a, w) = None
             | Some (a2, w2) \<Rightarrow>
                 \<exists>isNS rest.
                   taskQueue a2 = PreStepTask (narrowToInt (step a)) (stepTime inp (step a)) isNS # rest \<and>
                   getNextTask c inp (a, w) =
                     Some (Inr (Some (PreStepTask (narrowToInt (step a)) (stepTime inp (step a)) isNS),
                                a2\<lparr>taskIterator := 0\<rparr>, w2)))) \<and>
         (getNextTask c inp (a, w) = Some (Inr (None, a1, w1)) \<longrightarrow>
            getNextTask c inp (a1, w1) =
              (if taskQueue a = [] then Some (Inr (None, a1, w1))
               else Some (Inl InvalidIteratorDereference)))"
proof -
  have regen: "(case updateTaskQueue c inp (advanceCursor a, w) of
               None \<Rightarrow> getNextTask c inp (a, w) = None
             | Some (a2, w2) \<Rightarrow>
                 \<exists>isNS rest.
                   taskQueue a2 = PreStepTask (narrowToInt (step a)) (stepTime inp (step a)) isNS # rest \<and>
                   getNextTask c inp (a, w) =
                     Some (Inr (Some (PreStepTask (narrowToInt (step a)) (stepTime inp (step a)) isNS),
                                a2\<lparr>taskIterator := 0\<rparr>, w2)))"
    if h: "cursorAtEnd (advanceCursor a) \<and> \<not> runFinished a"
  proof (cases "updateTaskQueue c inp (advanceCursor a, w)")
    case None
    with h show ?thesis by (simp add: getNextTask_def Let_def advanceCursor_frame)
  next
    case (Some y)
    obtain a2 w2 where y: "y = (a2, w2)" by (cases y)
    from h Some y getNextTask_regenerates[of a c inp w a2 w2] show ?thesis by simp
  qed
  from getNextTask_terminal_iff[of c inp a w] regen getNextTask_after_terminal[of c inp a w a1 w1]
  show ?thesis by blast
qed

theorem getNextTask_terminal_witness:
  "cursorAtEnd (advanceCursor (stubAlgorithm 4)) \<and> \<not> runFinished (stubAlgorithm 4) \<and>
   updateTaskQueue (stubCollaborators 2 5) stubInput (advanceCursor (stubAlgorithm 4), stubWorld)
     = Some (stubFinalBatch, stubFinalWorld) \<and>
   (\<exists>isNS rest.
      taskQueue stubFinalBatch = PreStepTask (narrowToInt (step (stubAlgorithm 4)))
                                   (stepTime stubInput (step (stubAlgorithm 4))) isNS # rest \<and>
      getNextTask (stubCollaborators 2 5) stubInput (stubAlgorithm 4, stubWorld) =
        Some (Inr (Some (PreStepTask (narrowToInt (step (stubAlgorithm 4)))
                           (stepTime stubInput (step (stubAlgorithm 4))) isNS),
                   stubFinalBatch\<lparr>taskIterator := 0\<rparr>, stubFinalWorld))) \<and>
   getNextTask (stubCollaborators 2 5) stubInput (stubFinalBatch\<lparr>taskIterator := 10\<rparr>, stubFinalWorld)
     = Some (Inr (None, stubFinalBatch\<lparr>taskIterator := 11\<rparr>, stubFinalWorld)) \<and>
   getNextTask (stubCollaborators 2 5) stubInput (stubFinalBatch\<lparr>taskIterator := 11\<rparr>, stubFinalWorld)
     = Some (Inl InvalidIteratorDereference)"
proof -
  have adv: "advanceCursor (stubAlgorithm 4) = stubAlgorithm 4"
    by (simp add: advanceCursor_def stubAlgorithm_def)
  have h1: "cursorAtEnd (advanceCursor (stubAlgorithm 4)) \<and> \<not> runFinished (stubAlgorithm 4)"
    unfolding adv by (simp add: cursorAtEnd_def stubAlgorithm_def)
  have u: "updateTaskQueue (stubCollaborators 2 5) stubInput (advanceCursor (stubAlgorithm 4), stubWorld)
        = Some (stubFinalBatch, stubFinalWorld)"
    unfolding adv using stub_populate_final by (simp add: updateTaskQueue_def stubAlgorithm_def)
  have t: "getNextTask (stubCollaborators 2 5) stubInput (stubFinalBatch\<lparr>taskIterator := 10\<rparr>, stubFinalWorld)
     = Some (Inr (None, stubFinalBatch\<lparr>taskIterator := 11\<rparr>, stubFinalWorld))"
    by (simp add: getNextTask_def advanceCursor_def cursorAtEnd_def stubFinalBatch_def)
  have ne: "taskQueue (stubFinalBatch\<lparr>taskIterator := 10\<rparr>) \<noteq> []"
    by (simp add: stubFinalBatch_def)
  from getNextTask_terminal[where c = "stubCollaborators 2 5" and inp = stubInput
      and a = "stubAlgorithm 4" and w = stubWorld] h1 u
  have "\<exists>isNS rest.
      taskQueue stubFinalBatch = PreStepTask (narrowToInt (step (stubAlgorithm 4)))
                                   (stepTime stubInput (step (stubAlgorithm 4))) isNS # rest \<and>
      getNextTask (stubCollaborators 2 5) stubInput (stubAlgorithm 4, stubWorld) =
        Some (Inr (Some (PreStepTask (narrowToInt (step (stubAlgorithm 4)))
                           (stepTime stubInput (step (stubAlgorithm 4))) isNS),
                   stubFinalBatch\<lparr>taskIterator := 0\<rparr>, stubFinalWorld))" by simp
  moreover from getNextTask_terminal[where c = "stubCollaborators 2 5" and inp = stubInput
      and a = "stubFinalBatch\<lparr>taskIterator := 10\<rparr>" and w = stubFinalWorld
      and ?a1.0 = "stubFinalBatch\<lparr>taskIterator := 11\<rparr>" and ?w1.0 = stubFinalWorld] t ne
  have "getNextTask (stubCollaborators 2 5) stubInput (stubFinalBatch\<lparr>taskIterator := 11\<rparr>, stubFinalWorld)
     = Some (Inl InvalidIteratorDereference)" by simp
  ultimately show ?thesis using h1 u t by blast
qed

text \<open>
  C2 as stated fails: with the cursor on the last task of the final batch, the
  next call returns the terminal value, and the call after that does not.
\<close>

theorem getNextTask_not_sticky:
  "getNextTask (stubCollaborators 2 5) stubInput (stubFinalBatch\<lparr>taskIterator := 10\<rparr>, stubFinalWorld)
     = Some (Inr (None, stubFinalBatch\<lparr>taskIterator := 11\<rparr>, stubFinalWorld)) \<and>
   getNextTask (stubCollaborators 2 5) stubInput (stubFinalBatch\<lparr>taskIterator := 11\<rparr>, stubFinalWorld)
     \<noteq> Some (Inr (None, stubFinalBatch\<lparr>taskIterator := 11\<rparr>, stubFinalWorld)) \<and>
   getNextTask (stubCollaborators 2 5) stubInput (stubFinalBatch\<lparr>taskIterator := 11\<rparr>, stubFinalWorld)
     = Some (Inl InvalidIteratorDereference)"
  by (simp add: getNextTask_def advanceCursor_def cursorAtEnd_def dereference_def stubFinalBatch_def)

subsection \<open>Discard and rewind, followed through\<close>

text \<open>
  C3, at a failing input.  The scheduler generates the final batch (steps 4 and 5, last
  step 5) and hands out the pre-step task of step 4.  A stop request arrives; the task
  runs, empties the queue and rewinds the step counter to 4.  The run is still marked
  finished, so the next call of \<open>getNextTask\<close> returns the terminal value: no batch is
  generated, and step 4 is not scheduled again.
\<close>

theorem rewind_in_final_batch_ends_run:
  "getNextTask (stubCollaborators 2 5) stubInput (stubAlgorithm 4, stubWorld)
     = Some (Inr (Some (PreStepTask 4 4 True), stubFinalBatch, stubFinalWorld)) \<and>
   preStep (stubCollaborators 2 5) 4 4 True (stubFinalBatch, stubFinalWorld\<lparr>stopRequested := True\<rparr>)
     = (stubFinalBatch\<lparr>taskQueue := [], step := 4\<rparr>, stubFinalWorld\<lparr>stopRequested := True\<rparr>) \<and>
   getNextTask (stubCollaborators 2 5) stubInput
       (stubFinalBatch\<lparr>taskQueue := [], step := 4\<rparr>, stubFinalWorld\<lparr>stopRequested := True\<rparr>)
     = Some (Inr (None, stubFinalBatch\<lparr>taskQueue := [], step := 4\<rparr>,
                  stubFinalWorld\<lparr>stopRequested := True\<rparr>))"
proof -
  have "preStep (stubCollaborators 2 5) 4 4 True (stubFinalBatch, stubFinalWorld\<lparr>stopRequested := True\<rparr>)
     = (stubFinalBatch\<lparr>taskQueue := [], step := 4\<rparr>, stubFinalWorld\<lparr>stopRequested := True\<rparr>)"
    by (simp add: preStep_def stubCollaborators_def stubFinalBatch_def stubAlgorithm_def)
  moreover have "getNextTask (stubCollaborators 2 5) stubInput
       (stubFinalBatch\<lparr>taskQueue := [], step := 4\<rparr>, stubFinalWorld\<lparr>stopRequested := True\<rparr>)
     = Some (Inr (None, stubFinalBatch\<lparr>taskQueue := [], step := 4\<rparr>,
                  stubFinalWorld\<lparr>stopRequested := True\<rparr>))"
    by (simp add: getNextTask_def advanceCursor_def cursorAtEnd_def stubFinalBatch_def stubAlgorithm_def)
  ultimately show ?thesis using stub_first_task_final by simp
qed

text \<open>
  The same in the middle of a batch that is not the final one (steps 2 and 3, last step
  100): the cursor is on the pre-step task of step 3, at offset 5, when the task empties
  the queue.  The next call of \<open>getNextTask\<close> finds the queue empty, leaves the cursor
  where it is, finds it different from the end of the queue and dereferences it.
\<close>

lemma rewind_mid_batch_invalid_cursor:
  "preStep (stubCollaborators 2 100) 3 3 False
       (stubOpenBatch\<lparr>taskIterator := 5\<rparr>, stubOpenWorld\<lparr>stopRequested := True\<rparr>)
     = (stubOpenBatch\<lparr>taskIterator := 5, taskQueue := [], step := 3\<rparr>,
        stubOpenWorld\<lparr>stopRequested := True\<rparr>) \<and>
   getNextTask (stubCollaborators 2 100) stubInput
       (stubOpenBatch\<lparr>taskIterator := 5, taskQueue := [], step := 3\<rparr>,
        stubOpenWorld\<lparr>stopRequested := True\<rparr>)
     = Some (Inl InvalidIteratorDereference)"
  by (simp add: preStep_def getNextTask_def advanceCursor_def cursorAtEnd_def dereference_def
        stubCollaborators_def stubOpenBatch_def stubAlgorithm_def)

text \<open>
  Where the rewind is followed by the batch of the one step: the pre-step task was the
  first task of its batch, the run was not marked finished, and the signallers, notified
  again, leave the rewound step as last step.
\<close>

lemma rewind_then_regenerate:
  fixes c :: "('w, 'tm, 'a) Collaborators"
  assumes stop: "stoppingAfterCurrentStep c isNS w" and ne: "s \<noteq> lastStep a"
    and first: "taskIterator a = 0" and unfinished: "\<not> runFinished a"
    and l1: "lastStep (fst (populateStep c inp (beforeLoop c inp (a\<lparr>taskQueue := [], step := s\<rparr>, w)))) = s"
  shows "\<exists>isNS' blk a2 w2.
           getNextTask c inp (preStep c s t isNS (a, w))
             = Some (Inr (Some (PreStepTask (narrowToInt s) (stepTime inp s) isNS'), a2, w2)) \<and>
           stepBlock c inp (elementCallList a) s blk \<and>
           taskQueue a2 = blk @ [TeardownTask] \<and>
           step a2 = s + 1 \<and> lastStep a2 = s \<and> runFinished a2"
proof -
  define a0 where "a0 = a\<lparr>taskQueue := [], step := s\<rparr>"
  have pre: "preStep c s t isNS (a, w) = (a0, w)"
    using stop ne by (simp add: preStep_def a0_def)
  have adv: "advanceCursor a0 = a0" by (simp add: advanceCursor_def a0_def)
  have atEnd: "cursorAtEnd (advanceCursor a0)" "\<not> runFinished a0"
    unfolding adv using first unfinished by (simp_all add: cursorAtEnd_def a0_def)
  define x where "x = beforeLoop c inp (a0, w)"
  obtain a1 w1 t1 where p: "populateStep c inp x = (a1, w1, t1)" by (cases "populateStep c inp x")
  obtain l n w0 where bl: "x = (a0\<lparr>lastStep := l, nextNSStep := n\<rparr>, w0, stepTime inp (step a0))"
    using beforeLoop_frame[of c inp a0 w] unfolding x_def by blast
  have st: "step a1 = s + 1"
    using populateStep_step[of c inp x] p bl by (simp add: a0_def)
  have la: "lastStep a1 = s" using l1 p by (simp add: x_def a0_def)
  have "\<not> continueBatch a1" using st la by (simp add: continueBatch_def)
  with p have "repeats c inp 0 x" by simp
  then have pop: "populateTaskQueue c inp (a0, w) = Some (afterLoop (passes c inp 0 x))"
    unfolding populateTaskQueue_Some_iff x_def by blast
  obtain a2 w2 where aw: "afterLoop (passes c inp 0 x) = (a2, w2)"
    by (cases "afterLoop (passes c inp 0 x)")
  have a2: "a2 = a1\<lparr>runFinished := True, taskQueue := taskQueue a1 @ [TeardownTask]\<rparr>"
    using aw p st la by (simp add: afterLoop_def Let_def)
  have "a0\<lparr>taskQueue := []\<rparr> = a0" by (simp add: a0_def)
  then have "updateTaskQueue c inp (a0, w) = Some (a2, w2)"
    using pop aw by (simp add: updateTaskQueue_def)
  then have upd: "updateTaskQueue c inp (advanceCursor a0, w) = Some (a2, w2)"
    unfolding adv .
  from getNextTask_regenerates[OF atEnd upd] obtain isNS' rest where
    g: "getNextTask c inp (a0, w) =
          Some (Inr (Some (PreStepTask (narrowToInt (step a0)) (stepTime inp (step a0)) isNS'),
                     a2\<lparr>taskIterator := 0\<rparr>, w2))" by blast
  have "passes c inp 0 (a0\<lparr>lastStep := l, nextNSStep := n\<rparr>, w0, stepTime inp (step a0)) = (a1, w1, t1)"
    using p bl by simp
  from passes_shape[OF this] obtain bs where
    sh: "stepBlocks c inp (elementCallList a) s (Suc 0) bs" "taskQueue a1 = bs"
    by (auto simp: a0_def)
  from sh(1) obtain blk where blk: "stepBlock c inp (elementCallList a) s blk" "bs = blk"
    by (cases rule: stepBlocks.cases) (auto elim: stepBlocks.cases)
  have "taskQueue (a2\<lparr>taskIterator := 0\<rparr>) = blk @ [TeardownTask]"
    using a2 sh(2) blk(2) by simp
  moreover have "step (a2\<lparr>taskIterator := 0\<rparr>) = s + 1" "lastStep (a2\<lparr>taskIterator := 0\<rparr>) = s"
    "runFinished (a2\<lparr>taskIterator := 0\<rparr>)" using a2 st la by simp_all
  ultimately show ?thesis using g blk(1) pre by (auto simp: a0_def)
qed

text \<open>
  On the stub: the batch of the steps 2 and 3 has been generated, a stop request arrives
  before its first task runs, and the next batch is the one of step 2 with the teardown
  task, the last step being 2.
\<close>

lemma stub_rewind_at_batch_start:
  "getNextTask (stubCollaborators 2 100) stubInput
     (preStep (stubCollaborators 2 100) 2 2 True (stubOpenBatch, stubOpenWorld\<lparr>stopRequested := True\<rparr>))
   = Some (Inr (Some (PreStepTask 2 2 True),
               (stubAlgorithm 2)\<lparr>taskQueue :=
                   [PreStepTask 2 2 True, ElementTask (10, 2), ElementTask (11, 2),
                    ElementTask (12, 2), PostStepTask 2 2, TeardownTask],
                 step := 3, runFinished := True, lastStep := 2, nextNSStep := 2\<rparr>,
               stubWorld\<lparr>calls := [CheckpointHelperRun 2 2, CheckpointHelperRun 2 2],
                         signalled := [(1, 2), (2, 2), (1, 3), (2, 3), (1, 4), (2, 4),
                                       (1, 2), (2, 2), (1, 3), (2, 3)],
                         stopRequested := True, signalledStopCondition := True\<rparr>))"
proof -
  define a0 where "a0 = stubOpenBatch\<lparr>taskQueue := [], step := 2\<rparr>"
  define w0 where "w0 = stubOpenWorld\<lparr>stopRequested := True\<rparr>"
  have pre: "preStep (stubCollaborators 2 100) 2 2 True (stubOpenBatch, w0) = (a0, w0)"
    by (simp add: preStep_def stubCollaborators_def stubOpenBatch_def stubAlgorithm_def
          stubOpenWorld_def a0_def w0_def)
  have "populateTaskQueue (stubCollaborators 2 100) stubInput (a0, w0)
        = Some ((stubAlgorithm 2)\<lparr>taskQueue :=
                   [PreStepTask 2 2 True, ElementTask (10, 2), ElementTask (11, 2),
                    ElementTask (12, 2), PostStepTask 2 2, TeardownTask],
                 step := 3, runFinished := True, lastStep := 2, nextNSStep := 2\<rparr>,
               stubWorld\<lparr>calls := [CheckpointHelperRun 2 2, CheckpointHelperRun 2 2],
                         signalled := [(1, 2), (2, 2), (1, 3), (2, 3), (1, 4), (2, 4),
                                       (1, 2), (2, 2), (1, 3), (2, 3)],
                         stopRequested := True, signalledStopCondition := True\<rparr>)"
    unfolding populateTaskQueue_Some_iff
    by (rule exI[of _ 0])
       (simp add: stub_defs run_defs stubOpenBatch_def stubOpenWorld_def a0_def w0_def)
  then show ?thesis
    unfolding w0_def[symmetric] pre
    by (simp add: getNextTask_def advanceCursor_def cursorAtEnd_def dereference_def
          updateTaskQueue_def a0_def stubOpenBatch_def stubAlgorithm_def)
qed

text \<open>
  The step a pre-step task carries is the step counter narrowed to \<^verbatim>\<open>int\<close>: the same
  number as long as it fits 32 bits.
\<close>

lemma narrowToInt_in_range:
  assumes "- 2147483648 \<le> s" and "s < 2147483648"
  shows "narrowToInt s = s"
proof -
  have "sint (word_of_int s :: 32 word) = signed_take_bit 31 s"
    by (simp add: sint_uint signed_take_bit_take_bit uint_word_of_int_eq)
  also have "\<dots> = s"
    using assms by (simp add: signed_take_bit_int_eq_self_iff)
  finally show ?thesis by (simp add: narrowToInt_def)
qed

lemma narrowToInt_wraps: "narrowToInt 2147483648 = - 2147483648"
  by (simp add: narrowToInt_def)

section \<open>Properties of the builder\<close>

lemma stub_build:
  "build stubObjects (stubCollaborators 2 5) stubInput (stubBuilder, stubWorld)
   = Inr (Inr stubBuilt, stubBuilderAfter, stubBuiltWorld)"
  by (simp add: build_def assemble_def constructAlgorithm_def buildHelpers_def buildSignallers_def
        createElementLists_def connectAll_def addSignaller_def newAlgorithm_def
        algorithmSetup_def simulatorSetup_def runIfPresent_def Let_def
        stubObjects_def stubBuilder_def stubBuilderAfter_def stubBuilt_def stubBuiltWorld_def
        stubCollaborators_def stubInput_def stubWorld_def stubAlgorithm_def)

lemma algorithmSetup_frame:
  "algorithmSetup c inp (a, w) = Inr (a', w') \<Longrightarrow> a' = a\<lparr>step := init_step inp\<rparr>"
  by (auto simp: algorithmSetup_def simulatorSetup_def Let_def split: sum.splits option.splits)

lemma constructAlgorithm_result:
  "\<exists>a3 w4. constructAlgorithm bo c inp (b1, w) =
             (a3, b1\<lparr>builderStatePropagatorData := None, builderEnergyData := None,
                     builderFreeEnergyPerturbationData := None\<rparr>, w4) \<and>
           signallerList a3 = [] \<and> elementsOwnershipList a3 = [] \<and> elementCallList a3 = [] \<and>
           freeEnergyPerturbationData a3 = builderFreeEnergyPerturbationData b1"
  by (simp add: constructAlgorithm_def newAlgorithm_def Let_def)

lemma buildHelpers_result:
  "\<exists>a5 w8. buildHelpers bo c inp (a3, w4) = (a5, w8) \<and>
           signallerList a5 = signallerList a3 \<and> elementsOwnershipList a5 = elementsOwnershipList a3 \<and>
           elementCallList a5 = elementCallList a3 \<and>
           freeEnergyPerturbationData a5 = freeEnergyPerturbationData a3"
  by (simp add: buildHelpers_def Let_def)

lemma addSignaller_frame:
  "addSignaller c sg (a, w) = (a\<lparr>signallerList := sg # signallerList a\<rparr>,
     externalCall c (RegisterWithInfrastructureAndSignallers sg) w)"
  by (simp add: addSignaller_def)

lemma buildSignallers_result:
  "\<exists>a6 w9. buildSignallers bo c (a5, w8) = (a6, w9) \<and>
           signallerList a6 = [builtNeighborSearchSignaller bo, builtLastStepSignaller bo,
                        builtLoggingSignaller bo, builtTrajectorySignaller bo, builtEnergySignaller bo]
                        @ signallerList a5 \<and>
           elementsOwnershipList a6 = elementsOwnershipList a5 \<and>
           elementCallList a6 = elementCallList a5 \<and>
           freeEnergyPerturbationData a6 = freeEnergyPerturbationData a5"
  by (simp add: buildSignallers_def addSignaller_frame)

lemma createElementLists_result:
  "\<exists>a10. createElementLists bo b2 a6 = (a10, b2\<lparr>elements := map (\<lambda>p. None) (elements b2)\<rparr>) \<and>
          signallerList a10 = signallerList a6 \<and>
          elementsOwnershipList a10 =
            elementsOwnershipList a6
            @ (if freeEnergyPerturbationData a6 = None then []
               else [Some (builtFreeEnergyPerturbationElement bo)])
            @ elements b2 @ [Some (builtTrajectoryElement bo)] \<and>
          elementCallList a10 =
            elementCallList a6 @ [builtCheckpointHelper bo]
            @ (if freeEnergyPerturbationData a6 = None then []
               else [builtFreeEnergyPerturbationElement bo])
            @ callList b2 @ [builtTrajectoryElement bo]"
  by (simp add: createElementLists_def Let_def)

lemma assemble_result:
  assumes "assemble bo c inp (b1, w) = Inr (r, b', w')"
  shows "algorithmHasBeenBuilt b' = algorithmHasBeenBuilt b1 \<and>
         (\<forall>alg. r = Inr alg \<longrightarrow>
            signallerList alg = [builtNeighborSearchSignaller bo, builtLastStepSignaller bo,
                        builtLoggingSignaller bo, builtTrajectorySignaller bo, builtEnergySignaller bo] \<and>
            elementsOwnershipList alg =
              (if builderFreeEnergyPerturbationData b1 = None then []
               else [Some (builtFreeEnergyPerturbationElement bo)])
              @ elements b1 @ [Some (builtTrajectoryElement bo)] \<and>
            elementCallList alg =
              [builtCheckpointHelper bo]
              @ (if builderFreeEnergyPerturbationData b1 = None then []
                 else [builtFreeEnergyPerturbationElement bo])
              @ callList b1 @ [builtTrajectoryElement bo])"
proof -
  define b2 where "b2 = b1\<lparr>builderStatePropagatorData := None, builderEnergyData := None,
                     builderFreeEnergyPerturbationData := None\<rparr>"
  obtain a3 w4 where c1: "constructAlgorithm bo c inp (b1, w) = (a3, b2, w4)"
    "signallerList a3 = []" "elementsOwnershipList a3 = []" "elementCallList a3 = []"
    "freeEnergyPerturbationData a3 = builderFreeEnergyPerturbationData b1"
    using constructAlgorithm_result[of bo c inp b1 w] unfolding b2_def by blast
  obtain a5 w8 where c2: "buildHelpers bo c inp (a3, w4) = (a5, w8)"
    "signallerList a5 = signallerList a3" "elementsOwnershipList a5 = elementsOwnershipList a3"
    "elementCallList a5 = elementCallList a3"
    "freeEnergyPerturbationData a5 = freeEnergyPerturbationData a3"
    using buildHelpers_result[of bo c inp a3 w4] by blast
  obtain a6 w9 where c3: "buildSignallers bo c (a5, w8) = (a6, w9)"
    "signallerList a6 = [builtNeighborSearchSignaller bo, builtLastStepSignaller bo,
                        builtLoggingSignaller bo, builtTrajectorySignaller bo, builtEnergySignaller bo]
                        @ signallerList a5"
    "elementsOwnershipList a6 = elementsOwnershipList a5" "elementCallList a6 = elementCallList a5"
    "freeEnergyPerturbationData a6 = freeEnergyPerturbationData a5"
    using buildSignallers_result[of bo c a5 w8] by blast
  obtain a10 where c4: "createElementLists bo b2 a6 = (a10, b2\<lparr>elements := map (\<lambda>p. None) (elements b2)\<rparr>)"
    "signallerList a10 = signallerList a6"
    "elementsOwnershipList a10 =
            elementsOwnershipList a6
            @ (if freeEnergyPerturbationData a6 = None then []
               else [Some (builtFreeEnergyPerturbationElement bo)])
            @ elements b2 @ [Some (builtTrajectoryElement bo)]"
    "elementCallList a10 =
            elementCallList a6 @ [builtCheckpointHelper bo]
            @ (if freeEnergyPerturbationData a6 = None then []
               else [builtFreeEnergyPerturbationElement bo])
            @ callList b2 @ [builtTrajectoryElement bo]"
    using createElementLists_result[of bo b2 a6] by blast
  show ?thesis
  proof (cases "domainDecomp inp \<and> checkBondedInteractionsCallback b2 = None")
    case True
    with assms c1(1) have "r = Inl (SimulationAlgorithmSetupError
                           ''Requested CheckBondedInteractionsCallback before it was set.'')" "b' = b2"
      by (simp_all add: assemble_def)
    then show ?thesis by (simp add: b2_def)
  next
    case False
    with assms c1(1) c2(1) c3(1) c4(1) obtain a11 where
      s: "algorithmSetup c inp (a10, w9) = Inr (a11, w')" "r = Inr a11"
         "b' = b2\<lparr>elements := map (\<lambda>p. None) (elements b2)\<rparr>"
      by (auto simp: assemble_def split: sum.splits)
    from algorithmSetup_frame[OF s(1)] have "a11 = a10\<lparr>step := init_step inp\<rparr>" .
    with s(2,3) c1 c2 c3 c4 show ?thesis by (simp add: b2_def)
  qed
qed

lemma build_unbuilt:
  "\<not> algorithmHasBeenBuilt b \<Longrightarrow>
   build bo c inp (b, w) =
     assemble bo c inp
       (b\<lparr>algorithmHasBeenBuilt := True\<rparr>,
        connectAll c BarostatRegistration (barostatRegistrationFunctions b)
          (propagatorBarostatConnections b)
          (connectAll c ThermostatRegistration (thermostatRegistrationFunctions b)
             (propagatorThermostatConnections b) w))"
  by (simp add: build_def Let_def)

lemma build_sets_flag:
  assumes "build bo c inp (b, w) = Inr (r, b', w')"
  shows "algorithmHasBeenBuilt b'"
proof (cases "algorithmHasBeenBuilt b")
  case True
  with assms show ?thesis by (simp add: build_def)
next
  case False
  from assms assemble_result[of bo c inp "b\<lparr>algorithmHasBeenBuilt := True\<rparr>" _ r b' w']
  show ?thesis unfolding build_unbuilt[OF False] by simp
qed

lemma build_lists:
  assumes "build bo c inp (b, w) = Inr (Inr alg, b', w')"
  shows "signallerList alg = [builtNeighborSearchSignaller bo, builtLastStepSignaller bo,
                        builtLoggingSignaller bo, builtTrajectorySignaller bo, builtEnergySignaller bo] \<and>
         elementsOwnershipList alg =
              (if builderFreeEnergyPerturbationData b = None then []
               else [Some (builtFreeEnergyPerturbationElement bo)])
              @ elements b @ [Some (builtTrajectoryElement bo)] \<and>
         elementCallList alg =
              [builtCheckpointHelper bo]
              @ (if builderFreeEnergyPerturbationData b = None then []
                 else [builtFreeEnergyPerturbationElement bo])
              @ callList b @ [builtTrajectoryElement bo]"
proof (cases "algorithmHasBeenBuilt b")
  case True
  with assms show ?thesis by (simp add: build_def)
next
  case False
  from assms assemble_result[of bo c inp "b\<lparr>algorithmHasBeenBuilt := True\<rparr>" _ "Inr alg" b' w']
  show ?thesis unfolding build_unbuilt[OF False] by simp
qed

text \<open>
  C5.  A call of \<open>build\<close> on a builder that has been built throws the setup error and
  returns the builder and the world as they were; and every call of \<open>build\<close> that
  returns or throws leaves a builder that has been built.  So whatever the first call
  did, a second call, with whatever arguments, throws and changes nothing, and at most
  one call ever returns an algorithm.
\<close>

theorem build_only_once:
  fixes c c2 :: "('w, 'tm, 'a) Collaborators"
  shows "(algorithmHasBeenBuilt b \<longrightarrow>
            build bo c inp (b, w) =
              Inr (Inl (SimulationAlgorithmSetupError
                          ''Tried to build ModularSimulationAlgorithm more than once.''), b, w)) \<and>
         (build bo c inp (b, w) = Inr (r, b', w') \<longrightarrow>
            build bo2 c2 inp2 (b', w') =
              Inr (Inl (SimulationAlgorithmSetupError
                          ''Tried to build ModularSimulationAlgorithm more than once.''), b', w'))"
proof -
  have "build bo2 c2 inp2 (b', w') =
              Inr (Inl (SimulationAlgorithmSetupError
                          ''Tried to build ModularSimulationAlgorithm more than once.''), b', w')"
    if "build bo c inp (b, w) = Inr (r, b', w')"
    using build_sets_flag[OF that] by (simp add: build_def)
  then show ?thesis by (simp add: build_def)
qed

theorem build_only_once_witness:
  "build stubObjects (stubCollaborators 2 5) stubInput (stubBuilder, stubWorld)
     = Inr (Inr stubBuilt, stubBuilderAfter, stubBuiltWorld) \<and>
   algorithmHasBeenBuilt stubBuilderAfter \<and>
   build stubObjects (stubCollaborators 2 5) stubInput (stubBuilderAfter, stubBuiltWorld)
     = Inr (Inl (SimulationAlgorithmSetupError
                   ''Tried to build ModularSimulationAlgorithm more than once.''),
            stubBuilderAfter, stubBuiltWorld)"
proof -
  have f: "algorithmHasBeenBuilt stubBuilderAfter" by (simp add: stubBuilderAfter_def)
  from build_only_once[where c = "stubCollaborators 2 5" and ?c2.0 = "stubCollaborators 2 5"
      and bo = stubObjects and ?bo2.0 = stubObjects and inp = stubInput and ?inp2.0 = stubInput
      and b = stubBuilder and w = stubWorld and r = "Inr stubBuilt" and b' = stubBuilderAfter
      and w' = stubBuiltWorld] stub_build f
  show ?thesis by blast
qed

subsection \<open>The signaller list\<close>

lemma fold_addSignaller:
  "signallerList (fst (fold (addSignaller c) sgs (a, w))) = rev sgs @ signallerList a"
  by (induction sgs arbitrary: a w) (simp_all add: addSignaller_def)

lemma stub_signalAll_order:
  "signalled (snd (signalAll (stubCollaborators nstlist stopStep) sgs s t (a, w)))
   = signalled w @ map (\<lambda>sg. (sg, s)) sgs"
proof (induction sgs arbitrary: a w)
  case Nil
  then show ?case by simp
next
  case (Cons sg sgs)
  obtain cbs w1 where sg: "signal (stubCollaborators nstlist stopStep) sg s t w = (cbs, w1)"
    by (cases "signal (stubCollaborators nstlist stopStep) sg s t w")
  then have "signalled w1 = signalled w @ [(sg, s)]"
    by (auto simp: stubCollaborators_def stubSignal_def Let_def split: if_splits)
  with sg Cons.IH[of "fold applyCallback cbs a" w1] show ?case by simp
qed

text \<open>
  C6.  Adding signallers one after the other puts them on the signaller list in the
  reverse of the order in which they were added; a notification round goes through the
  list from its front, so it calls them in that reversed order (shown on stub signallers
  that record being called); and the list \<open>build\<close> produces is the reverse of the order
  in which \<open>build\<close> creates its five signallers.
\<close>

theorem signallers_called_in_reverse_build_order:
  fixes c :: "('w, 'tm, 'a) Collaborators" and c2 :: "('w2, 'tm2, 'a2) Collaborators"
    and a0 :: "('tm, 'a) ModularSimulatorAlgorithm"
  shows "signallerList (fst (fold (addSignaller c) sgs (a0, w))) = rev sgs @ signallerList a0 \<and>
         signalled (snd (signalAll (stubCollaborators nstlist stopStep)
                           (signallerList (fst (fold (addSignaller c) sgs (newAlgorithm bo, w))))
                           s t (sa, sw)))
           = signalled sw @ map (\<lambda>sg. (sg, s)) (rev sgs) \<and>
         (build bo c2 inp (b, w2) = Inr (Inr alg, b', w2') \<longrightarrow>
            signallerList alg =
              rev [builtEnergySignaller bo, builtTrajectorySignaller bo, builtLoggingSignaller bo,
                   builtLastStepSignaller bo, builtNeighborSearchSignaller bo])"
proof -
  have "signallerList (fst (fold (addSignaller c) sgs (newAlgorithm bo, w))) = rev sgs"
    by (simp add: fold_addSignaller newAlgorithm_def)
  then have "signalled (snd (signalAll (stubCollaborators nstlist stopStep)
                           (signallerList (fst (fold (addSignaller c) sgs (newAlgorithm bo, w))))
                           s t (sa, sw)))
           = signalled sw @ map (\<lambda>sg. (sg, s)) (rev sgs)"
    by (simp add: stub_signalAll_order)
  moreover have "signallerList alg =
              rev [builtEnergySignaller bo, builtTrajectorySignaller bo, builtLoggingSignaller bo,
                   builtLastStepSignaller bo, builtNeighborSearchSignaller bo]"
    if "build bo c2 inp (b, w2) = Inr (Inr alg, b', w2')"
    using build_lists[OF that] by simp
  ultimately show ?thesis using fold_addSignaller[of c sgs a0 w] by blast
qed

theorem signallers_called_in_reverse_build_order_witness:
  "signalled (snd (signalAll (stubCollaborators 2 5)
                     (signallerList (fst (fold (addSignaller (stubCollaborators 2 5)) [7, 8, 9]
                                            (newAlgorithm stubObjects, stubWorld))))
                     0 0 (stubAlgorithm 0, stubWorld)))
     = [(9, 0), (8, 0), (7, 0)] \<and>
   build stubObjects (stubCollaborators 2 5) stubInput (stubBuilder, stubWorld)
     = Inr (Inr stubBuilt, stubBuilderAfter, stubBuiltWorld) \<and>
   signallerList stubBuilt = [1, 2, 3, 4, 5]"
proof -
  note T = signallers_called_in_reverse_build_order[where c = "stubCollaborators 2 5"
      and ?c2.0 = "stubCollaborators 2 5" and sgs = "[7, 8, 9]" and bo = stubObjects
      and ?a0.0 = "newAlgorithm stubObjects"
      and w = stubWorld and nstlist = 2 and stopStep = 5 and s = 0 and t = 0
      and sa = "stubAlgorithm 0" and sw = stubWorld and inp = stubInput and b = stubBuilder
      and ?w2.0 = stubWorld and alg = stubBuilt and b' = stubBuilderAfter and ?w2'.0 = stubBuiltWorld]
  from T have "signalled (snd (signalAll (stubCollaborators 2 5)
                     (signallerList (fst (fold (addSignaller (stubCollaborators 2 5)) [7, 8, 9]
                                            (newAlgorithm stubObjects, stubWorld))))
                     0 0 (stubAlgorithm 0, stubWorld)))
     = signalled stubWorld @ map (\<lambda>sg. (sg, 0)) (rev [7, 8, 9])" by blast
  then have A: "signalled (snd (signalAll (stubCollaborators 2 5)
                     (signallerList (fst (fold (addSignaller (stubCollaborators 2 5)) [7, 8, 9]
                                            (newAlgorithm stubObjects, stubWorld))))
                     0 0 (stubAlgorithm 0, stubWorld)))
     = [(9, 0), (8, 0), (7, 0)]" by (simp add: stubWorld_def)
  from T stub_build have "signallerList stubBuilt =
              rev [builtEnergySignaller stubObjects, builtTrajectorySignaller stubObjects,
                   builtLoggingSignaller stubObjects, builtLastStepSignaller stubObjects,
                   builtNeighborSearchSignaller stubObjects]" by blast
  then have B: "signallerList stubBuilt = [1, 2, 3, 4, 5]" by (simp add: stubObjects_def)
  from A B stub_build show ?thesis by blast
qed

subsection \<open>Deferred registration\<close>


lemma stub_calls_each:
  "fold (\<lambda>x. externalCall (stubCollaborators nstlist stopStep) (mk x)) xs w
   = w\<lparr>calls := calls w @ map mk xs\<rparr>"
  by (induction xs arbitrary: w) (simp_all add: stubCollaborators_def)









subsection \<open>Teardown\<close>

lemma callEach_all_present:
  "callEach c mk (map Some es) w = Inr (fold (\<lambda>e. externalCall c (mk e)) es w)"
  by (induction es arbitrary: w) simp_all

lemma tornDown_append: "tornDown (xs @ ys) = tornDown xs @ tornDown ys"
  by (induction xs rule: tornDown.induct) simp_all

lemma tornDown_teardowns: "tornDown (map ElementTeardown es) = es"
  by (induction es) simp_all

lemma teardown_all_present:
  assumes "elementsOwnershipList a = map Some es" and "energyData a = Some ed"
  shows "teardown c inp a w =
           Inr (simulatorTeardown c inp a
                  (runIfPresent c (pmeLoadBalanceHelper a) PmeLoadBalanceHelperTeardown
                     (externalCall c (EnergyDataTeardown ed)
                        (fold (\<lambda>e. externalCall c (ElementTeardown e)) es w))))"
  using assms by (simp add: teardown_def callEach_all_present Let_def)

lemma stub_teardown_order:
  assumes "elementsOwnershipList a = map Some es" and "energyData a = Some ed"
  shows "\<exists>w'. teardown (stubCollaborators nstlist stopStep) inp a w = Inr w' \<and>
              tornDown (calls w') = tornDown (calls w) @ es"
proof -
  let ?c = "stubCollaborators nstlist stopStep"
  define w1 where "w1 = fold (\<lambda>e. externalCall ?c (ElementTeardown e)) es w"
  have c1: "calls w1 = calls w @ map ElementTeardown es"
    by (simp add: w1_def stub_calls_each)
  define w' where "w' = simulatorTeardown ?c inp a
                  (runIfPresent ?c (pmeLoadBalanceHelper a) PmeLoadBalanceHelperTeardown
                     (externalCall ?c (EnergyDataTeardown ed) w1))"
  have "\<exists>rest. calls w' = calls w1 @ rest \<and> tornDown rest = []"
    by (cases "pmeLoadBalanceHelper a")
       (simp_all add: w'_def simulatorTeardown_def runIfPresent_def stubCollaborators_def Let_def)
  then obtain rest where "calls w' = calls w1 @ rest" "tornDown rest = []" by blast
  with c1 have "tornDown (calls w') = tornDown (calls w) @ es"
    by (simp add: tornDown_append tornDown_teardowns)
  moreover have "teardown ?c inp a w = Inr w'"
    using teardown_all_present[OF assms] by (simp add: w'_def w1_def)
  ultimately show ?thesis by blast
qed

lemma stepBlock_no_teardown: "stepBlock c inp cl s blk \<Longrightarrow> TeardownTask \<notin> set blk"
  by (auto simp: stepBlock_def)

lemma stepBlocks_no_teardown: "stepBlocks c inp cl s n bs \<Longrightarrow> TeardownTask \<notin> set bs"
  by (induction rule: stepBlocks.induct) (simp_all add: stepBlock_no_teardown)

lemma updateTaskQueue_teardown_last:
  fixes c :: "('w, 'tm, 'a) Collaborators"
  assumes "updateTaskQueue c inp (a, w) = Some (a', w')"
  shows "count_list (taskQueue a') TeardownTask = (if runFinished a' then 1 else 0) \<and>
         (if runFinished a' then last (taskQueue a') = TeardownTask
          else TeardownTask \<notin> set (taskQueue a'))"
proof -
  from assms have "populateTaskQueue c inp (a\<lparr>taskQueue := []\<rparr>, w) = Some (a', w')"
    by (simp add: updateTaskQueue_def)
  from populateTaskQueue_shape[OF this] obtain n bs l ns where
    sh: "stepBlocks c inp (elementCallList a) (step a) (Suc n) bs"
        "taskQueue a' = bs @ (if l < step a + 1 + int n then [TeardownTask] else [])"
        "runFinished a' = (l < step a + 1 + int n)" by auto
  from stepBlocks_no_teardown[OF sh(1)] have "count_list bs TeardownTask = 0" "TeardownTask \<notin> set bs"
    by (simp_all add: count_list_0_iff)
  with sh(2,3) show ?thesis by simp
qed

text \<open>
  C8, as amended.  \<open>teardown\<close> calls \<^verbatim>\<open>elementTeardown\<close> once on each entry of the
  ownership list, in the order of that list, and nothing else is torn down as an element
  (shown on the stub, which records the calls).  \<open>build\<close> makes the ownership list from
  the free-energy element, if there is one, the builder's elements in the order they
  were stored, and the trajectory element; the call list from the checkpoint helper,
  the free-energy element, the builder's call list, and the trajectory element.  A
  regenerated batch holds the teardown task once, as its last task, if the run is
  finished, and not at all otherwise.
\<close>

theorem teardown_in_ownership_order:
  fixes c :: "('w, 'tm, 'a) Collaborators" and a :: "('tm, 'a) ModularSimulatorAlgorithm"
    and sa :: "(int, addr \<times> Step) ModularSimulatorAlgorithm"
  shows "(elementsOwnershipList a = map Some es \<and> energyData a = Some ed \<longrightarrow>
            teardown c inp a w =
              Inr (simulatorTeardown c inp a
                     (runIfPresent c (pmeLoadBalanceHelper a) PmeLoadBalanceHelperTeardown
                        (externalCall c (EnergyDataTeardown ed)
                           (fold (\<lambda>e. externalCall c (ElementTeardown e)) es w))))) \<and>
         (elementsOwnershipList sa = map Some ses \<and> energyData sa = Some sed \<longrightarrow>
            (\<exists>sw'. teardown (stubCollaborators nstlist stopStep) sinp sa sw = Inr sw' \<and>
                    tornDown (calls sw') = tornDown (calls sw) @ ses)) \<and>
         (build bo c inp (b, w) = Inr (Inr alg, b', w') \<longrightarrow>
            elementsOwnershipList alg =
              (if builderFreeEnergyPerturbationData b = None then []
               else [Some (builtFreeEnergyPerturbationElement bo)])
              @ elements b @ [Some (builtTrajectoryElement bo)] \<and>
            elementCallList alg =
              [builtCheckpointHelper bo]
              @ (if builderFreeEnergyPerturbationData b = None then []
                 else [builtFreeEnergyPerturbationElement bo])
              @ callList b @ [builtTrajectoryElement bo]) \<and>
         (updateTaskQueue c inp (a, w) = Some (a2, w2) \<longrightarrow>
            count_list (taskQueue a2) TeardownTask = (if runFinished a2 then 1 else 0) \<and>
            (if runFinished a2 then last (taskQueue a2) = TeardownTask
             else TeardownTask \<notin> set (taskQueue a2)))"
  using teardown_all_present[of a es ed c inp w]
    stub_teardown_order[of sa ses sed nstlist stopStep sinp sw]
    build_lists[of bo c inp b w alg b' w']
    updateTaskQueue_teardown_last[of c inp a w a2 w2]
  by blast

theorem teardown_in_ownership_order_witness:
  "elementsOwnershipList stubBuilt = map Some [11, 12, 13] \<and> energyData stubBuilt = Some 21 \<and>
   (\<exists>sw'. teardown (stubCollaborators 2 5) stubInput stubBuilt stubWorld = Inr sw' \<and>
           tornDown (calls sw') = tornDown (calls stubWorld) @ [11, 12, 13]) \<and>
   build stubObjects (stubCollaborators 2 5) stubInput (stubBuilder, stubWorld)
     = Inr (Inr stubBuilt, stubBuilderAfter, stubBuiltWorld) \<and>
   elementCallList stubBuilt = [10, 12, 11, 13] \<and>
   updateTaskQueue (stubCollaborators 2 5) stubInput (stubAlgorithm 4, stubWorld)
     = Some (stubFinalBatch, stubFinalWorld) \<and>
   count_list (taskQueue stubFinalBatch) TeardownTask = (if runFinished stubFinalBatch then 1 else 0)"
proof -
  note T = teardown_in_ownership_order[where c = "stubCollaborators 2 5" and sa = stubBuilt
      and ses = "[11, 12, 13]" and sed = 21 and nstlist = 2 and stopStep = 5 and sinp = stubInput
      and sw = stubWorld and bo = stubObjects and inp = stubInput and b = stubBuilder
      and w = stubWorld and alg = stubBuilt and b' = stubBuilderAfter and w' = stubBuiltWorld
      and a = "stubAlgorithm 4" and ?a2.0 = stubFinalBatch and ?w2.0 = stubFinalWorld]
  have h: "elementsOwnershipList stubBuilt = map Some [11, 12, 13] \<and> energyData stubBuilt = Some 21"
    by (simp add: stubBuilt_def stubAlgorithm_def)
  have u: "updateTaskQueue (stubCollaborators 2 5) stubInput (stubAlgorithm 4, stubWorld)
        = Some (stubFinalBatch, stubFinalWorld)"
    using stub_populate_final by (simp add: updateTaskQueue_def stubAlgorithm_def)
  from T h have A: "\<exists>sw'. teardown (stubCollaborators 2 5) stubInput stubBuilt stubWorld = Inr sw' \<and>
           tornDown (calls sw') = tornDown (calls stubWorld) @ [11, 12, 13]" by blast
  from T stub_build have "elementCallList stubBuilt =
              [builtCheckpointHelper stubObjects]
              @ (if builderFreeEnergyPerturbationData stubBuilder = None then []
                 else [builtFreeEnergyPerturbationElement stubObjects])
              @ callList stubBuilder @ [builtTrajectoryElement stubObjects]" by blast
  then have B: "elementCallList stubBuilt = [10, 12, 11, 13]"
    by (simp add: stubObjects_def stubBuilder_def)
  from T u have C: "count_list (taskQueue stubFinalBatch) TeardownTask
                      = (if runFinished stubFinalBatch then 1 else 0)" by blast
  from h A B C u stub_build show ?thesis by blast
qed

text \<open>
  C8 as stated fails: for \<open>stubBuilder\<close> the call list is \<open>[10, 12, 11, 13]\<close>, and
  \<open>teardown\<close> tears down 11, 12 and 13, in this order, and not the checkpoint helper 10.
\<close>

theorem teardown_not_in_call_list_order:
  "build stubObjects (stubCollaborators 2 5) stubInput (stubBuilder, stubWorld)
     = Inr (Inr stubBuilt, stubBuilderAfter, stubBuiltWorld) \<and>
   elementCallList stubBuilt = [10, 12, 11, 13] \<and>
   teardown (stubCollaborators 2 5) stubInput stubBuilt stubWorld
     = Inr (stubWorld\<lparr>calls := [ElementTeardown 11, ElementTeardown 12, ElementTeardown 13,
                                  EnergyDataTeardown 21, WalltimeAccountingEndTime,
                                  WalltimeAccountingSetNstepsDone 0]\<rparr>) \<and>
   tornDown [ElementTeardown 11, ElementTeardown 12, ElementTeardown 13, EnergyDataTeardown 21,
             WalltimeAccountingEndTime, WalltimeAccountingSetNstepsDone (0 :: int)]
     = [11, 12, 13] \<and>
   [11, 12, 13] \<noteq> elementCallList stubBuilt"
  using stub_build
  by (simp add: teardown_def simulatorTeardown_def runIfPresent_def Let_def
        stubBuilt_def stubAlgorithm_def stubCollaborators_def stubInput_def stubWorld_def)

section \<open>Properties of the box matrix inversion\<close>

text \<open>
  C10.  Whatever the arithmetic and whatever the local matrix held before, a matrix
  that \<open>invertBoxMatrix\<close> returns has the constant zero in the three entries above the
  diagonal.
\<close>

theorem invertBoxMatrix_upper_zero:
  assumes "invertBoxMatrix ar dest0 src = Inr dest"
  shows "dest XX YY = fzero ar \<and> dest XX ZZ = fzero ar \<and> dest YY ZZ = fzero ar"
  using assms by (auto simp: invertBoxMatrix_def setEntry_def Let_def split: if_splits)

theorem invertBoxMatrix_upper_zero_witness:
  "(\<exists>dest. invertBoxMatrix intArithmetic (\<lambda>i j. 7) (\<lambda>i j. if i = j then 1 else 0) = Inr dest \<and>
           dest XX YY = fzero intArithmetic \<and> dest XX ZZ = fzero intArithmetic \<and>
           dest YY ZZ = fzero intArithmetic \<and> dest XX YY = 0)"
proof -
  obtain dest where d: "invertBoxMatrix intArithmetic (\<lambda>i j. 7) (\<lambda>i j. if i = j then 1 else 0) = Inr dest"
    by (simp add: invertBoxMatrix_def intArithmetic_def Let_def)
  from invertBoxMatrix_upper_zero[OF d] d show ?thesis by (auto simp: intArithmetic_def)
qed

end
